theory Spec2Isabelle
  imports Complex_Main
begin

section \<open>Configuration (utils/config.py)\<close>

definition FACE_CROP_PADDING :: int where
  "FACE_CROP_PADDING = 20"

definition EMBEDDING_DIM :: nat where
  "EMBEDDING_DIM = 512"

definition COSINE_SIMILARITY_THRESHOLD :: real where
  "COSINE_SIMILARITY_THRESHOLD = 80 / 100"

definition LIVENESS_FRAMES_COUNT :: nat where
  "LIVENESS_FRAMES_COUNT = 3"

definition LIVENESS_MOVEMENT_THRESHOLD :: real where
  "LIVENESS_MOVEMENT_THRESHOLD = 5 / 10000"

definition EYE_ASPECT_RATIO_THRESHOLD :: real where
  "EYE_ASPECT_RATIO_THRESHOLD = 1 / 1000"

section \<open>Numeric primitives of numpy and scikit-learn, over the reals\<close>

text \<open>
  Vectors are lists of reals. Floating-point rounding is not part of the model: every
  operation below is the exact real operation the library call approximates.
\<close>

type_synonym vec = "real list"

datatype py_error = ValueError | IndexError

definition dot :: "vec \<Rightarrow> vec \<Rightarrow> real" where
  "dot a b = sum_list (map (\<lambda>(x, y). x * y) (zip a b))"

text \<open>\<^verbatim>\<open>np.linalg.norm(v)\<close>: the L2 norm.\<close>

definition linalg_norm :: "vec \<Rightarrow> real" where
  "linalg_norm v = sqrt (sum_list (map (\<lambda>x. x * x) v))"

text \<open>
  \<^verbatim>\<open>sklearn.preprocessing.normalize\<close> on one row: the row is divided by its norm, a
  zero norm being replaced by 1 first.
\<close>

definition sk_normalize :: "vec \<Rightarrow> vec" where
  "sk_normalize v =
     (let n = linalg_norm v; n' = (if n = 0 then 1 else n) in map (\<lambda>x. x / n') v)"

text \<open>
  \<^verbatim>\<open>sklearn.metrics.pairwise.cosine_similarity\<close> for one pair of rows: the dot product
  of the two normalised rows.
\<close>

definition cosine_similarity :: "vec \<Rightarrow> vec \<Rightarrow> real" where
  "cosine_similarity x y = dot (sk_normalize x) (sk_normalize y)"

text \<open>
  \<^verbatim>\<open>np.argmax\<close>: a left-to-right scan that replaces the running best only by a
  strictly larger value, so the first maximal position is kept. The scan starts from
  the first element; the caller only applies it to a non-empty array.
\<close>

fun argmax_scan :: "nat \<Rightarrow> real \<Rightarrow> nat \<Rightarrow> real list \<Rightarrow> nat" where
  "argmax_scan bi bv i [] = bi"
| "argmax_scan bi bv i (x # xs) =
     (if bv < x then argmax_scan i x (Suc i) xs else argmax_scan bi bv (Suc i) xs)"

definition argmax :: "real list \<Rightarrow> nat" where
  "argmax xs = (case xs of [] \<Rightarrow> 0 | x # rest \<Rightarrow> argmax_scan 0 x 1 rest)"

section \<open>Face matching (face\_engine/matcher.py)\<close>

type_synonym candidate = "string \<times> string \<times> vec"

type_synonym match_result = "string option \<times> string option \<times> real \<times> real"

text \<open>
  \<^verbatim>\<open>FaceMatcher.match_1_to_n\<close>. The matcher's \<^verbatim>\<open>self.threshold\<close> is the first
  argument; \<open>t_start\<close> and \<open>t_end\<close> are the two readings of \<^verbatim>\<open>time.time()\<close>.
  Stacking rows of unequal length, or comparing a query with rows of another length
  (or of length zero), raises \<^verbatim>\<open>ValueError\<close> in numpy and scikit-learn.
\<close>

definition match_1_to_n ::
  "real \<Rightarrow> vec \<Rightarrow> candidate list \<Rightarrow> real \<Rightarrow> real \<Rightarrow> py_error + match_result" where
  "match_1_to_n threshold query_embedding database_embeddings t_start t_end =
     (if length database_embeddings = 0 then Inr (None, None, 0, 0)
      else
        let student_ids = map fst database_embeddings;
            student_names = map (\<lambda>item. fst (snd item)) database_embeddings;
            embeddings = map (\<lambda>item. snd (snd item)) database_embeddings
        in
          if query_embedding = [] \<or>
             \<not> list_all (\<lambda>e. length e = length query_embedding) embeddings
          then Inl ValueError
          else
            let similarities = map (cosine_similarity query_embedding) embeddings;
                best_idx = argmax similarities;
                best_score = similarities ! best_idx;
                search_time_ms = (t_end - t_start) * 1000
            in
              if threshold \<le> best_score
              then Inr (Some (student_ids ! best_idx), Some (student_names ! best_idx),
                        best_score, search_time_ms)
              else Inr (None, None, best_score, search_time_ms))"

section \<open>Embedding generation (face\_engine/embedder.py)\<close>

text \<open>
  An image is a list of rows of BGR pixels; \<open>image_size\<close> is numpy's \<^verbatim>\<open>.size\<close> of
  the \<open>h \<times> w \<times> 3\<close> array.
\<close>

type_synonym pixel = "nat \<times> nat \<times> nat"

type_synonym image = "pixel list list"

definition image_width :: "image \<Rightarrow> nat" where
  "image_width img = (case img of [] \<Rightarrow> 0 | row # _ \<Rightarrow> length row)"

definition image_size :: "image \<Rightarrow> nat" where
  "image_size img = length img * image_width img * 3"

text \<open>\<^verbatim>\<open>FaceEmbedder._normalize_embedding\<close>: a zero norm returns the vector as it is.\<close>

definition normalize_embedding :: "vec \<Rightarrow> vec" where
  "normalize_embedding embedding =
     (let norm = linalg_norm embedding
      in if norm = 0 then embedding else map (\<lambda>x. x / norm) embedding)"

text \<open>
  The dimension check of \<^verbatim>\<open>generate_embedding\<close>: a flattened model output shorter than
  \<open>EMBEDDING_DIM\<close> is padded with zeros at the end, a longer one is cut.
\<close>

definition pad_or_truncate :: "vec \<Rightarrow> vec" where
  "pad_or_truncate embedding =
     (if length embedding \<noteq> EMBEDDING_DIM
      then (if length embedding < EMBEDDING_DIM
            then embedding @ replicate (EMBEDDING_DIM - length embedding) 0
            else take EMBEDDING_DIM embedding)
      else embedding)"

text \<open>
  \<^verbatim>\<open>FaceEmbedder.generate_embedding\<close>. The loaded ONNX session is \<open>session\<close>
  (\<open>None\<close> when no model was loaded). Its value is the function from a face image to
  the flattened first output of the model, covering \<^verbatim>\<open>_preprocess_face\<close> (OpenCV
  resize and colour conversion) and \<^verbatim>\<open>session.run\<close>; it yields \<open>None\<close> when one of
  these raises, which the \<^verbatim>\<open>except\<close> clause turns into the result \<open>None\<close>. The final
  \<^verbatim>\<open>astype(np.float32)\<close> is the identity on the reals.
\<close>

definition generate_embedding :: "(image \<Rightarrow> vec option) option \<Rightarrow> image option \<Rightarrow> vec option" where
  "generate_embedding session face_image =
     (case session of
        None \<Rightarrow> None
      | Some run \<Rightarrow>
          (case face_image of
             None \<Rightarrow> None
           | Some img \<Rightarrow>
               if image_size img = 0 then None
               else
                 (case run img of
                    None \<Rightarrow> None
                  | Some raw \<Rightarrow> Some (normalize_embedding (pad_or_truncate raw)))))"

section \<open>Face detection (face\_engine/detector.py)\<close>

text \<open>
  A MediaPipe detection: the relative bounding box and the list of scores.
\<close>

record relative_bounding_box =
  xmin :: real
  ymin :: real
  width :: real
  height :: real

record detection =
  location_data :: relative_bounding_box
  det_score :: "real list"

text \<open>Python's \<^verbatim>\<open>int()\<close> on a float rounds towards zero.\<close>

definition py_int :: "real \<Rightarrow> int" where
  "py_int r = (if 0 \<le> r then \<lfloor>r\<rfloor> else \<lceil>r\<rceil>)"

text \<open>
  The slice \<^verbatim>\<open>a[start:stop]\<close> of Python and numpy: a negative bound counts from the
  end, and both bounds are clipped to the length.
\<close>

definition slice_bound :: "int \<Rightarrow> int \<Rightarrow> int" where
  "slice_bound n i = (if i < 0 then max (n + i) 0 else min i n)"

definition py_slice :: "'a list \<Rightarrow> int \<Rightarrow> int \<Rightarrow> 'a list" where
  "py_slice xs start stop =
     (let n = int (length xs); s = slice_bound n start; e = slice_bound n stop
      in take (nat (e - s)) (drop (nat s) xs))"

type_synonym detection_info = "(int \<times> int \<times> int \<times> int) \<times> real"

text \<open>
  \<^verbatim>\<open>FaceDetector.detect_single_face\<close>. The argument \<open>process\<close> is MediaPipe's
  \<^verbatim>\<open>face_detection.process\<close> after the colour conversion; its value is
  \<^verbatim>\<open>results.detections\<close>, which is \<open>None\<close> or a list. Reading \<^verbatim>\<open>detection.score[0]\<close>
  of an empty score list raises \<^verbatim>\<open>IndexError\<close>. The source's parameter
  \<^verbatim>\<open>image\<close> is written \<open>img\<close>.
\<close>

definition detect_single_face ::
  "(image \<Rightarrow> detection list option) \<Rightarrow> image \<Rightarrow> py_error + (image \<times> detection_info) option" where
  "detect_single_face process img =
     (case process img of
        None \<Rightarrow> Inr None
      | Some detections \<Rightarrow>
          if detections = [] \<or> length detections \<noteq> 1 then Inr None
          else
            let detection = detections ! 0;
                h = int (length img);
                w = int (image_width img);
                bbox = location_data detection;
                x0 = py_int (xmin bbox * real_of_int w);
                y0 = py_int (ymin bbox * real_of_int h);
                box_w0 = py_int (width bbox * real_of_int w);
                box_h0 = py_int (height bbox * real_of_int h);
                x = max 0 (x0 - FACE_CROP_PADDING);
                y = max 0 (y0 - FACE_CROP_PADDING);
                box_w = min (w - x) (box_w0 + 2 * FACE_CROP_PADDING);
                box_h = min (h - y) (box_h0 + 2 * FACE_CROP_PADDING);
                face_crop = map (\<lambda>row. py_slice row x (x + box_w)) (py_slice img y (y + box_h))
            in (case det_score detection of
                  [] \<Rightarrow> Inl IndexError
                | confidence # _ \<Rightarrow> Inr (Some (face_crop, ((x, y, box_w, box_h), confidence)))))"

text \<open>\<^verbatim>\<open>FaceDetector.detect_faces_count\<close>.\<close>

definition detect_faces_count :: "(image \<Rightarrow> detection list option) \<Rightarrow> image \<Rightarrow> nat" where
  "detect_faces_count process img =
     (case process img of
        None \<Rightarrow> 0
      | Some detections \<Rightarrow> if detections = [] then 0 else length detections)"

section \<open>Passive liveness detection (face\_engine/liveness.py)\<close>

text \<open>
  The landmarks of one frame are a list of points \<open>[x, y, z]\<close>. MediaPipe's
  \<^verbatim>\<open>face_mesh.process\<close> (after the colour conversion) is the argument \<open>face_mesh\<close>; its
  value is \<^verbatim>\<open>results.multi_face_landmarks\<close>: \<open>None\<close> or a list of faces, each a list
  of landmark coordinates.
\<close>

type_synonym landmarks = "vec list"

definition LEFT_EYE_INDICES :: "nat list" where
  "LEFT_EYE_INDICES = [33, 160, 158, 133, 153, 144]"

definition RIGHT_EYE_INDICES :: "nat list" where
  "RIGHT_EYE_INDICES = [362, 385, 387, 263, 373, 380]"

definition extract_landmarks ::
  "(image \<Rightarrow> (real \<times> real \<times> real) list list option) \<Rightarrow> image \<Rightarrow> landmarks option" where
  "extract_landmarks face_mesh img =
     (case face_mesh img of
        None \<Rightarrow> None
      | Some multi_face_landmarks \<Rightarrow>
          if multi_face_landmarks = [] then None
          else Some (map (\<lambda>(x, y, z). [x, y, z]) (multi_face_landmarks ! 0)))"

text \<open>\<^verbatim>\<open>np.mean\<close> and \<^verbatim>\<open>np.var\<close> of a flat array (population variance).\<close>

definition np_mean :: "real list \<Rightarrow> real" where
  "np_mean xs = sum_list xs / real (length xs)"

definition np_var :: "real list \<Rightarrow> real" where
  "np_var xs = np_mean (map (\<lambda>x. (x - np_mean xs) * (x - np_mean xs)) xs)"

text \<open>
  \<^verbatim>\<open>_calculate_movement_variance\<close>: the frames are stacked (frames of unequal shape
  cannot be stacked: \<^verbatim>\<open>ValueError\<close>), the variance is taken across frames for every
  landmark coordinate, and the mean of all these variances is returned. The caller
  passes at least \<open>LIVENESS_FRAMES_COUNT\<close> frames; with no landmark at all numpy's mean
  is not a number, and the blink check that follows raises \<^verbatim>\<open>IndexError\<close>.
\<close>

definition calculate_movement_variance :: "landmarks list \<Rightarrow> py_error + real" where
  "calculate_movement_variance landmarks_sequence =
     (case landmarks_sequence of
        [] \<Rightarrow> Inr 0
      | first # _ \<Rightarrow>
          if \<not> list_all (\<lambda>lm. length lm = length first) landmarks_sequence then Inl ValueError
          else
            let variance =
                  map (\<lambda>i. map (\<lambda>c. np_var (map (\<lambda>lm. lm ! i ! c) landmarks_sequence)) [0..<3])
                      [0..<length first];
                mean_variance = np_mean (concat variance)
            in Inr mean_variance)"

text \<open>
  \<^verbatim>\<open>_calculate_ear\<close>. Indexing the landmarks with an index beyond their number raises
  \<^verbatim>\<open>IndexError\<close>. A zero horizontal distance makes the float division yield an
  infinity or a not-a-number (a warning, no exception): the value \<open>None\<close>.
\<close>

definition vec_sub :: "vec \<Rightarrow> vec \<Rightarrow> vec" where
  "vec_sub a b = map (\<lambda>(x, y). x - y) (zip a b)"

definition calculate_ear :: "landmarks \<Rightarrow> nat list \<Rightarrow> py_error + real option" where
  "calculate_ear lms eye_indices =
     (if \<not> list_all (\<lambda>i. i < length lms) eye_indices then Inl IndexError
      else
        let eye_points = map (\<lambda>i. lms ! i) eye_indices;
            vertical_1 = linalg_norm (vec_sub (eye_points ! 1) (eye_points ! 5));
            vertical_2 = linalg_norm (vec_sub (eye_points ! 2) (eye_points ! 4));
            horizontal = linalg_norm (vec_sub (eye_points ! 0) (eye_points ! 3))
        in Inr (if horizontal = 0 then None
                else Some ((vertical_1 + vertical_2) / (2 * horizontal))))"

text \<open>The loop of \<^verbatim>\<open>_detect_blink\<close> that collects the average EAR of every frame.\<close>

fun ear_values :: "landmarks list \<Rightarrow> py_error + real option list" where
  "ear_values [] = Inr []"
| "ear_values (lms # rest) =
     (case calculate_ear lms LEFT_EYE_INDICES of
        Inl e \<Rightarrow> Inl e
      | Inr left_ear \<Rightarrow>
          (case calculate_ear lms RIGHT_EYE_INDICES of
             Inl e \<Rightarrow> Inl e
           | Inr right_ear \<Rightarrow>
               let avg_ear = (case (left_ear, right_ear) of
                                (Some l, Some r) \<Rightarrow> Some ((l + r) / 2)
                              | _ \<Rightarrow> None)
               in (case ear_values rest of
                     Inl e \<Rightarrow> Inl e
                   | Inr vals \<Rightarrow> Inr (avg_ear # vals))))"

text \<open>
  \<^verbatim>\<open>_detect_blink\<close>. The variance of an array holding an infinity or a not-a-number is
  not a number, and its comparison with the threshold is false.
\<close>

definition detect_blink :: "landmarks list \<Rightarrow> py_error + bool" where
  "detect_blink landmarks_sequence =
     (case ear_values landmarks_sequence of
        Inl e \<Rightarrow> Inl e
      | Inr vals \<Rightarrow>
          if list_all (\<lambda>v. v \<noteq> None) vals
          then Inr (EYE_ASPECT_RATIO_THRESHOLD < np_var (map the vals))
          else Inr False)"

text \<open>The landmark extraction loop of \<^verbatim>\<open>check_liveness\<close>: it stops at the first frame
  without landmarks.\<close>

fun extract_sequence ::
  "(image \<Rightarrow> (real \<times> real \<times> real) list list option) \<Rightarrow> image list \<Rightarrow> landmarks list
     \<Rightarrow> landmarks list option" where
  "extract_sequence face_mesh [] landmarks_sequence = Some landmarks_sequence"
| "extract_sequence face_mesh (frame # frames) landmarks_sequence =
     (case extract_landmarks face_mesh frame of
        None \<Rightarrow> None
      | Some lms \<Rightarrow> extract_sequence face_mesh frames (landmarks_sequence @ [lms]))"

text \<open>\<^verbatim>\<open>LivenessDetector.check_liveness\<close>: the result is \<open>(is_live, confidence, reason)\<close>.\<close>

definition check_liveness ::
  "(image \<Rightarrow> (real \<times> real \<times> real) list list option) \<Rightarrow> image list
     \<Rightarrow> py_error + (bool \<times> real \<times> string)" where
  "check_liveness face_mesh frames =
     (if length frames < LIVENESS_FRAMES_COUNT then Inr (False, 0, ''Insufficient frames'')
      else
        (case extract_sequence face_mesh frames [] of
           None \<Rightarrow> Inr (False, 0, ''Face landmarks not detected'')
         | Some landmarks_sequence \<Rightarrow>
             (case calculate_movement_variance landmarks_sequence of
                Inl e \<Rightarrow> Inl e
              | Inr movement_score \<Rightarrow>
                  (case detect_blink landmarks_sequence of
                     Inl e \<Rightarrow> Inl e
                   | Inr blink_detected \<Rightarrow>
                       if LIVENESS_MOVEMENT_THRESHOLD < movement_score
                       then Inr (True, min (movement_score * 100) 1, ''Natural movement detected'')
                       else if blink_detected then Inr (True, 8 / 10, ''Eye blink detected'')
                       else Inr (False, movement_score * 100,
                                 ''Static image detected (no movement)'')))))"

section \<open>Attendance log (db/database.py, db/database\_extensions.py, db/models.py)\<close>

text \<open>
  A row of \<^verbatim>\<open>attendance_logs\<close>. The timestamp column holds what
  \<^verbatim>\<open>datetime.now()\<close> returned: the local wall-clock time without a zone, here in
  seconds. The database state is the content of the two tables the pipeline uses.
\<close>

record log_row =
  log_student_id :: "string option"
  log_timestamp :: int
  log_status :: string
  log_similarity_score :: "real option"
  log_processing_time_ms :: real

record database =
  students :: "candidate list"
  attendance_logs :: "log_row list"

text \<open>
  \<^verbatim>\<open>Database.log_attendance\<close>. The INSERT is rejected by the table's CHECK constraint
  when the status is neither \<^verbatim>\<open>'SUCCESS'\<close> nor \<^verbatim>\<open>'FAILURE'\<close>, and \<open>insert_raises\<close>
  says that sqlite raised for another reason (a locked or unwritable database); in both
  cases the \<^verbatim>\<open>except\<close> clause prints the error and returns \<open>False\<close>, the table
  unchanged. SQLite does not enforce the foreign key on \<^verbatim>\<open>student_id\<close> unless asked
  to, and the code never asks. \<open>now\<close> is the reading of \<^verbatim>\<open>datetime.now()\<close>.
\<close>

definition log_attendance ::
  "bool \<Rightarrow> int \<Rightarrow> database \<Rightarrow> string option \<Rightarrow> string \<Rightarrow> real option \<Rightarrow> real
     \<Rightarrow> bool \<times> database" where
  "log_attendance insert_raises now db student_id status similarity_score processing_time_ms =
     (if insert_raises \<or> \<not> List.member [''SUCCESS'', ''FAILURE''] status then (False, db)
      else (True,
            db\<lparr>attendance_logs := attendance_logs db @
                 [\<lparr>log_student_id = student_id, log_timestamp = now, log_status = status,
                   log_similarity_score = similarity_score,
                   log_processing_time_ms = processing_time_ms\<rparr>]\<rparr>))"

text \<open>\<^verbatim>\<open>Database.get_all_embeddings\<close>: every enrolled row, or the empty list when the
  query raises.\<close>

definition get_all_embeddings :: "bool \<Rightarrow> database \<Rightarrow> candidate list" where
  "get_all_embeddings select_raises db = (if select_raises then [] else students db)"

text \<open>
  SQLite's \<^verbatim>\<open>DATE(t)\<close> of a time in seconds, as a day number. \<^verbatim>\<open>DATE(timestamp)\<close> is
  the date part of the stored local time; \<^verbatim>\<open>DATE('now')\<close> is the date of the current
  time in UTC.
\<close>

definition sql_date :: "int \<Rightarrow> int" where
  "sql_date t = t div 86400"

text \<open>
  \<^verbatim>\<open>check_attendance_today\<close>: \<open>utc_now\<close> is the current time in UTC seconds, which
  SQLite reads for \<^verbatim>\<open>'now'\<close>.
\<close>

definition check_attendance_today :: "bool \<Rightarrow> int \<Rightarrow> database \<Rightarrow> string \<Rightarrow> bool" where
  "check_attendance_today select_raises utc_now db student_id =
     (if select_raises then False
      else 0 < length (filter (\<lambda>r. log_student_id r = Some student_id
                                  \<and> sql_date (log_timestamp r) = sql_date utc_now
                                  \<and> log_status r = ''SUCCESS'')
                        (attendance_logs db)))"

section \<open>The attendance cycle (pages/attendance.py)\<close>

text \<open>
  What one call of \<^verbatim>\<open>process_attendance\<close> reads from its collaborators and from the
  clock: the detector's MediaPipe model, the embedder's session, the matcher's
  threshold, the readings of \<^verbatim>\<open>time.time()\<close> (at the start, when the processing time
  is computed, and inside the matcher), the reading of \<^verbatim>\<open>datetime.now()\<close> in
  \<^verbatim>\<open>log_attendance\<close>, and whether the SELECT and the INSERT raise.
\<close>

record cycle_env =
  env_face_detection :: "image \<Rightarrow> detection list option"
  env_session :: "(image \<Rightarrow> vec option) option"
  env_threshold :: real
  env_start_time :: real
  env_end_time :: real
  env_match_start :: real
  env_match_end :: real
  env_now :: int
  env_select_raises :: bool
  env_insert_raises :: bool

record result_data =
  res_student_id :: "string option"
  res_student_name :: "string option"
  res_similarity_score :: real
  res_processing_time :: real
  res_liveness :: string
  res_is_live :: bool

text \<open>
  \<^verbatim>\<open>process_attendance\<close>: the result is the pair \<open>(result_data, error)\<close> the function
  returns, with the database as the call leaves it. An exception of the detector or of
  the matcher is not caught and leaves the function.
\<close>

definition process_attendance ::
  "cycle_env \<Rightarrow> image \<Rightarrow> database
     \<Rightarrow> py_error + ((result_data option \<times> string option) \<times> database)" where
  "process_attendance env frame db =
     (case detect_single_face (env_face_detection env) frame of
        Inl e \<Rightarrow> Inl e
      | Inr None \<Rightarrow>
          let processing_time = (env_end_time env - env_start_time env) * 1000;
              db' = snd (log_attendance (env_insert_raises env) (env_now env) db
                           None ''FAILURE'' (Some 0) processing_time)
          in Inr ((None, Some ''No face detected''), db')
      | Inr (Some (face_crop, detection_info)) \<Rightarrow>
          let is_live = True;
              liveness_reason = ''Skipped for speed''
          in
            (case generate_embedding (env_session env) (Some face_crop) of
               None \<Rightarrow>
                 let processing_time = (env_end_time env - env_start_time env) * 1000;
                     db' = snd (log_attendance (env_insert_raises env) (env_now env) db
                                  None ''FAILURE'' (Some 0) processing_time)
                 in Inr ((None, Some ''Embedding generation failed''), db')
             | Some embedding \<Rightarrow>
                 let all_embeddings = get_all_embeddings (env_select_raises env) db
                 in
                   (case match_1_to_n (env_threshold env) embedding all_embeddings
                           (env_match_start env) (env_match_end env) of
                      Inl e \<Rightarrow> Inl e
                    | Inr (student_id, student_name, similarity_score, search_time) \<Rightarrow>
                        let processing_time = (env_end_time env - env_start_time env) * 1000;
                            db' = (if student_id \<noteq> None
                                   then snd (log_attendance (env_insert_raises env) (env_now env) db
                                               student_id ''SUCCESS'' (Some similarity_score)
                                               processing_time)
                                   else snd (log_attendance (env_insert_raises env) (env_now env) db
                                               None ''FAILURE'' (Some similarity_score)
                                               processing_time))
                        in Inr ((Some \<lparr>res_student_id = student_id,
                                        res_student_name = student_name,
                                        res_similarity_score = similarity_score,
                                        res_processing_time = processing_time,
                                        res_liveness = liveness_reason,
                                        res_is_live = is_live\<rparr>, None), db'))))"

text \<open>
  A sequence of processing cycles, each with its own frame and environment, run one
  after the other on the database; a cycle that raises ends the sequence.
\<close>

fun process_cycles :: "(cycle_env \<times> image) list \<Rightarrow> database \<Rightarrow> py_error + database" where
  "process_cycles [] db = Inr db"
| "process_cycles ((env, frame) # rest) db =
     (case process_attendance env frame db of
        Inl e \<Rightarrow> Inl e
      | Inr (result, db') \<Rightarrow> process_cycles rest db')"

section \<open>Properties of the arg-max scan\<close>

lemma argmax_scan_props:
  assumes "bi < i" "i = length pre" "bi < length pre" "pre ! bi = bv"
    and "\<forall>j < length pre. pre ! j \<le> bv" and "\<forall>j < bi. pre ! j < bv"
  shows "argmax_scan bi bv i xs < length (pre @ xs)
       \<and> (\<forall>j < length (pre @ xs). (pre @ xs) ! j \<le> (pre @ xs) ! argmax_scan bi bv i xs)
       \<and> (\<forall>j < argmax_scan bi bv i xs.
             (pre @ xs) ! j < (pre @ xs) ! argmax_scan bi bv i xs)"
  using assms
proof (induction xs arbitrary: bi bv i pre)
  case Nil
  then show ?case by simp
next
  case (Cons x xs)
  show ?case
  proof (cases "bv < x")
    case True
    have a: "i < Suc i" by simp
    have b: "Suc i = length (pre @ [x])" using Cons.prems by simp
    have c: "i < length (pre @ [x])" using Cons.prems by simp
    have d: "(pre @ [x]) ! i = x" using Cons.prems by simp
    have e: "\<forall>j < length (pre @ [x]). (pre @ [x]) ! j \<le> x"
      using Cons.prems True by (auto simp: nth_append less_Suc_eq intro: less_imp_le order_trans)
    have f: "\<forall>j < i. (pre @ [x]) ! j < x"
      using Cons.prems True by (auto simp: nth_append intro: le_less_trans)
    from Cons.IH[OF a b c d e f] True show ?thesis by simp
  next
    case False
    have a: "bi < Suc i" using Cons.prems by simp
    have b: "Suc i = length (pre @ [x])" using Cons.prems by simp
    have c: "bi < length (pre @ [x])" using Cons.prems by simp
    have d: "(pre @ [x]) ! bi = bv" using Cons.prems by (simp add: nth_append)
    have e: "\<forall>j < length (pre @ [x]). (pre @ [x]) ! j \<le> bv"
      using Cons.prems False by (auto simp: nth_append less_Suc_eq)
    have f: "\<forall>j < bi. (pre @ [x]) ! j < bv"
      using Cons.prems by (auto simp: nth_append)
    from Cons.IH[OF a b c d e f] False show ?thesis by simp
  qed
qed

lemma argmax_props:
  assumes "xs \<noteq> []"
  shows "argmax xs < length xs"
    and "\<forall>j < length xs. xs ! j \<le> xs ! argmax xs"
    and "\<forall>j < argmax xs. xs ! j < xs ! argmax xs"
proof -
  obtain x rest where xs: "xs = x # rest" using assms by (cases xs) auto
  have "argmax_scan 0 x 1 rest < length ([x] @ rest)
      \<and> (\<forall>j < length ([x] @ rest). ([x] @ rest) ! j \<le> ([x] @ rest) ! argmax_scan 0 x 1 rest)
      \<and> (\<forall>j < argmax_scan 0 x 1 rest.
            ([x] @ rest) ! j < ([x] @ rest) ! argmax_scan 0 x 1 rest)"
    by (rule argmax_scan_props) auto
  then show "argmax xs < length xs"
    and "\<forall>j < length xs. xs ! j \<le> xs ! argmax xs"
    and "\<forall>j < argmax xs. xs ! j < xs ! argmax xs"
    by (simp_all add: xs argmax_def)
qed

lemma argmax_Max:
  assumes "xs \<noteq> []"
  shows "xs ! argmax xs = Max (set xs)"
proof (rule sym, rule Max_eqI)
  show "finite (set xs)" by simp
  show "xs ! argmax xs \<in> set xs" using argmax_props(1)[OF assms] by simp
  fix y assume "y \<in> set xs"
  then obtain j where "j < length xs" "xs ! j = y" by (auto simp: in_set_conv_nth)
  then show "y \<le> xs ! argmax xs" using argmax_props(2)[OF assms] by auto
qed

section \<open>Facts about the matcher\<close>

lemma match_1_to_n_nonempty_result:
  assumes "database_embeddings \<noteq> []"
    and "match_1_to_n threshold q database_embeddings t_start t_end = Inr (sid, nm, score, t)"
  shows "score = map (\<lambda>item. cosine_similarity q (snd (snd item))) database_embeddings !
                 argmax (map (\<lambda>item. cosine_similarity q (snd (snd item))) database_embeddings)"
    and "threshold \<le> score \<Longrightarrow>
           sid = Some (fst (database_embeddings !
                 argmax (map (\<lambda>item. cosine_similarity q (snd (snd item))) database_embeddings)))
         \<and> nm = Some (fst (snd (database_embeddings !
                 argmax (map (\<lambda>item. cosine_similarity q (snd (snd item))) database_embeddings))))"
    and "\<not> threshold \<le> score \<Longrightarrow> sid = None \<and> nm = None"
    and "t = (t_end - t_start) * 1000"
proof -
  let ?sims = "map (\<lambda>item. cosine_similarity q (snd (snd item))) database_embeddings"
  have len: "argmax ?sims < length database_embeddings"
    using argmax_props(1)[of ?sims] assms(1) by simp
  have sims: "map (cosine_similarity q) (map (\<lambda>item. snd (snd item)) database_embeddings) = ?sims"
    by (simp add: comp_def)
  from assms show "score = ?sims ! argmax ?sims"
    by (simp add: match_1_to_n_def Let_def sims del: map_map split: if_splits)
  from assms len show "threshold \<le> score \<Longrightarrow>
      sid = Some (fst (database_embeddings ! argmax ?sims))
    \<and> nm = Some (fst (snd (database_embeddings ! argmax ?sims)))"
    by (auto simp add: match_1_to_n_def Let_def sims simp del: map_map split: if_splits)
  from assms show "\<not> threshold \<le> score \<Longrightarrow> sid = None \<and> nm = None"
    by (auto simp add: match_1_to_n_def Let_def sims simp del: map_map split: if_splits)
  from assms show "t = (t_end - t_start) * 1000"
    by (auto simp add: match_1_to_n_def Let_def sims simp del: map_map split: if_splits)
qed

section \<open>Cosine similarity is at most one (Cauchy--Schwarz)\<close>

lemma dot_Nil [simp]: "dot [] ys = 0" "dot xs [] = 0"
  by (simp_all add: dot_def)

lemma dot_Cons [simp]: "dot (x # xs) (y # ys) = x * y + dot xs ys"
  by (simp add: dot_def)

lemma dot_self_nonneg: "0 \<le> dot v v"
  by (induction v) simp_all

lemma dot_self_zero: "dot v v = 0 \<Longrightarrow> x \<in> set v \<Longrightarrow> x = 0"
proof (induction v)
  case Nil
  then show ?case by simp
next
  case (Cons a v)
  have "0 \<le> a * a" by simp
  moreover have "0 \<le> dot v v" by (rule dot_self_nonneg)
  moreover have "a * a + dot v v = 0" using Cons.prems by simp
  ultimately have "a * a = 0" "dot v v = 0" by linarith+
  then show ?case using Cons by auto
qed

lemma linalg_norm_dot: "linalg_norm v = sqrt (dot v v)"
proof -
  have "sum_list (map (\<lambda>x. x * x) v) = dot v v"
    by (induction v) simp_all
  then show ?thesis by (simp add: linalg_norm_def)
qed

lemma linalg_norm_nonneg: "0 \<le> linalg_norm v"
  by (simp add: linalg_norm_dot dot_self_nonneg)

lemma linalg_norm_square: "linalg_norm v * linalg_norm v = dot v v"
  by (simp add: linalg_norm_dot dot_self_nonneg)

lemma linalg_norm_zero_iff: "linalg_norm v = 0 \<longleftrightarrow> dot v v = 0"
  by (simp add: linalg_norm_dot dot_self_nonneg)

lemma dot_scale: "dot (map (\<lambda>a. a / c) xs) (map (\<lambda>b. b / d) ys) = dot xs ys / (c * d)"
proof (induction xs arbitrary: ys)
  case Nil
  then show ?case by simp
next
  case (Cons x xs)
  then show ?case by (cases ys) (simp_all add: add_divide_distrib)
qed


lemma amgm: "4 * p * q \<le> (p + q)\<^sup>2" for p q :: real
proof -
  have "0 \<le> (p - q)\<^sup>2" by simp
  also have "(p - q)\<^sup>2 = (p + q)\<^sup>2 - 4 * p * q"
    by (simp add: power2_eq_square algebra_simps)
  finally show ?thesis by simp
qed

lemma cauchy_step:
  fixes x y S A B :: real
  assumes "S * S \<le> A * B" "0 \<le> A" "0 \<le> B"
  shows "(x * y + S) * (x * y + S) \<le> (x * x + A) * (y * y + B)"
proof -
  define p where "p = x * x * B"
  define q where "q = y * y * A"
  define m where "m = 2 * x * y * S"
  have p: "0 \<le> p" and q: "0 \<le> q" using assms by (simp_all add: p_def q_def)
  have "m\<^sup>2 = 4 * ((x * x) * (y * y)) * (S * S)"
    by (simp add: m_def power2_eq_square)
  also have "\<dots> \<le> 4 * ((x * x) * (y * y)) * (A * B)"
    by (rule mult_left_mono[OF assms(1)]) simp
  also have "\<dots> = 4 * p * q" by (simp add: p_def q_def)
  also have "\<dots> \<le> (p + q)\<^sup>2" by (rule amgm)
  finally have "m\<^sup>2 \<le> (p + q)\<^sup>2" .
  then have mpq: "m \<le> p + q"
    by (rule power2_le_imp_le) (use p q in simp)
  have l: "(x * y + S) * (x * y + S) = x * x * (y * y) + m + S * S"
    by (simp add: m_def algebra_simps)
  have r: "(x * x + A) * (y * y + B) = x * x * (y * y) + p + q + A * B"
    by (simp add: p_def q_def algebra_simps)
  show ?thesis unfolding l r using mpq assms(1) by linarith
qed

lemma dot_cauchy_schwarz:
  "length xs = length ys \<Longrightarrow> dot xs ys * dot xs ys \<le> dot xs xs * dot ys ys"
proof (induction xs ys rule: list_induct2)
  case Nil
  then show ?case by simp
next
  case (Cons x xs y ys)
  show ?case
    using cauchy_step[OF Cons.IH dot_self_nonneg dot_self_nonneg, of x y] by simp
qed

lemma dot_zero_left: "dot xs xs = 0 \<Longrightarrow> dot xs ys = 0"
proof (induction xs arbitrary: ys)
  case Nil
  then show ?case by simp
next
  case (Cons x xs)
  have "x = 0" using dot_self_zero[OF Cons.prems, of x] by simp
  moreover have "dot xs xs = 0" using Cons.prems calculation by simp
  ultimately show ?case using Cons.IH by (cases ys) simp_all
qed

lemma dot_commute: "dot xs ys = dot ys xs"
proof (induction xs arbitrary: ys)
  case Nil
  then show ?case by simp
next
  case (Cons x xs)
  then show ?case by (cases ys) simp_all
qed



lemma cosine_similarity_eq:
  "cosine_similarity x y =
     dot x y / ((if linalg_norm x = 0 then 1 else linalg_norm x) *
                (if linalg_norm y = 0 then 1 else linalg_norm y))"
  unfolding cosine_similarity_def sk_normalize_def Let_def by (rule dot_scale)


lemma cosine_similarity_self:
  assumes "linalg_norm v \<noteq> 0"
  shows "cosine_similarity v v = 1"
proof -
  have "cosine_similarity v v = dot v v / (linalg_norm v * linalg_norm v)"
    using assms by (simp only: cosine_similarity_eq if_False)
  also have "\<dots> = dot v v / dot v v" by (simp only: linalg_norm_square)
  also have "\<dots> = 1" using assms by (simp add: linalg_norm_zero_iff)
  finally show ?thesis .
qed

lemma cosine_similarity_le_1:
  assumes "length x = length y"
  shows "cosine_similarity x y \<le> 1"
proof (cases "linalg_norm x = 0 \<or> linalg_norm y = 0")
  case True
  then have "dot x x = 0 \<or> dot y y = 0" by (simp only: linalg_norm_zero_iff)
  then have "dot x y = 0"
  proof
    assume "dot x x = 0" then show ?thesis by (rule dot_zero_left)
  next
    assume "dot y y = 0"
    then have "dot y x = 0" by (rule dot_zero_left)
    then show ?thesis by (simp only: dot_commute[of x y])
  qed
  then show ?thesis by (simp add: cosine_similarity_eq)
next
  case False
  define nx where "nx = linalg_norm x"
  define ny where "ny = linalg_norm y"
  have nx: "0 < nx" and ny: "0 < ny"
    using False linalg_norm_nonneg[of x] linalg_norm_nonneg[of y]
    by (simp_all add: nx_def ny_def less_le)
  have pos: "0 < nx * ny" using nx ny by simp
  have sq: "nx * nx = dot x x" "ny * ny = dot y y"
    by (simp_all only: nx_def ny_def linalg_norm_square)
  have "(dot x y)\<^sup>2 = dot x y * dot x y" by (simp only: power2_eq_square)
  also have "\<dots> \<le> dot x x * dot y y" by (rule dot_cauchy_schwarz[OF assms])
  also have "\<dots> = (nx * nx) * (ny * ny)" by (simp only: sq)
  also have "\<dots> = (nx * ny)\<^sup>2" by (simp add: power2_eq_square)
  finally have le: "dot x y \<le> nx * ny"
    by (rule power2_le_imp_le) (use pos in simp)
  have "cosine_similarity x y = dot x y / (nx * ny)"
    using False by (simp only: cosine_similarity_eq nx_def ny_def de_Morgan_disj if_False)
  also have "\<dots> \<le> 1" using le pos by (simp add: divide_le_eq)
  finally show ?thesis .
qed

lemma match_1_to_n_valid:
  assumes "database_embeddings \<noteq> []" "q \<noteq> []"
    and "list_all (\<lambda>item. length (snd (snd item)) = length q) database_embeddings"
  shows "match_1_to_n threshold q database_embeddings t_start t_end =
     (let sims = map (\<lambda>item. cosine_similarity q (snd (snd item))) database_embeddings;
          i = argmax sims
      in if threshold \<le> sims ! i
         then Inr (Some (fst (database_embeddings ! i)), Some (fst (snd (database_embeddings ! i))),
                   sims ! i, (t_end - t_start) * 1000)
         else Inr (None, None, sims ! i, (t_end - t_start) * 1000))"
proof -
  let ?sims = "map (\<lambda>item. cosine_similarity q (snd (snd item))) database_embeddings"
  have len: "argmax ?sims < length database_embeddings"
    using argmax_props(1)[of ?sims] assms(1) by simp
  have sims: "map (cosine_similarity q) (map (\<lambda>item. snd (snd item)) database_embeddings) = ?sims"
    by (simp add: comp_def)
  have dims: "list_all (\<lambda>e. length e = length q) (map (\<lambda>item. snd (snd item)) database_embeddings)"
    using assms(3) by (simp add: list_all_iff)
  show ?thesis
    using assms(1,2) dims len
    by (simp add: match_1_to_n_def Let_def sims del: map_map)
qed

section \<open>Claims about the matcher\<close>

text \<open>
  C10. Called with an empty candidate list, \<open>match_1_to_n\<close> returns
  \<open>(None, None, 0.0, 0.0)\<close>: no identity, a best score of 0 and a search time of 0,
  whatever the query and the threshold are; the early return precedes every similarity
  computation and both clock readings, so the reported 0 is not a computed maximum.
\<close>

theorem match_1_to_n_empty:
  "match_1_to_n threshold q [] t_start t_end = Inr (None, None, 0, 0)"
  by (simp add: match_1_to_n_def)

theorem match_1_to_n_empty_witness:
  "match_1_to_n COSINE_SIMILARITY_THRESHOLD [1, 0] [] 5 7 = Inr (None, None, 0, 0)"
  by (rule match_1_to_n_empty)

text \<open>
  C2. For a non-empty candidate list, when \<open>match_1_to_n\<close> returns no identity, the
  score it returns is the maximum of the cosine similarities between the query and all
  candidate signatures (and that maximum is below the threshold).
\<close>

theorem match_1_to_n_no_match_score:
  assumes "database_embeddings \<noteq> []"
    and "match_1_to_n threshold q database_embeddings t_start t_end = Inr (None, nm, score, t)"
  shows "score = Max (set (map (\<lambda>item. cosine_similarity q (snd (snd item))) database_embeddings))
       \<and> score < threshold \<and> nm = None"
proof -
  let ?sims = "map (\<lambda>item. cosine_similarity q (snd (snd item))) database_embeddings"
  have ne: "?sims \<noteq> []" using assms(1) by simp
  have "score = ?sims ! argmax ?sims"
    by (rule match_1_to_n_nonempty_result(1)[OF assms])
  then have m: "score = Max (set ?sims)" by (simp only: argmax_Max[OF ne])
  have lt: "score < threshold"
  proof (rule ccontr)
    assume "\<not> score < threshold"
    then have "threshold \<le> score" by simp
    from match_1_to_n_nonempty_result(2)[OF assms this] show False by simp
  qed
  then have "\<not> threshold \<le> score" by simp
  from match_1_to_n_nonempty_result(3)[OF assms this] have "nm = None" by simp
  with m lt show ?thesis by simp
qed

theorem match_1_to_n_no_match_score_witness:
  "match_1_to_n COSINE_SIMILARITY_THRESHOLD [1, 0]
     [(''S1'', ''Ann'', [0, 1]), (''S2'', ''Bob'', [-1, 0])] 5 7 = Inr (None, None, 0, 2000)
   \<and> (0::real) = Max (set (map (\<lambda>item. cosine_similarity [1, 0] (snd (snd item)))
                      [(''S1'', ''Ann'', [0, 1]), (''S2'', ''Bob'', [-1, 0])]))"
proof -
  have ev: "match_1_to_n COSINE_SIMILARITY_THRESHOLD [1, 0]
     [(''S1'', ''Ann'', [0, 1]), (''S2'', ''Bob'', [-1, 0])] 5 7 = Inr (None, None, 0, 2000)"
    by (simp add: match_1_to_n_def COSINE_SIMILARITY_THRESHOLD_def cosine_similarity_def
        sk_normalize_def linalg_norm_def dot_def argmax_def Let_def)
  have ne: "[(''S1'', ''Ann'', [0, 1]), (''S2'', ''Bob'', [-1, 0::real])] \<noteq> []" by simp
  from match_1_to_n_no_match_score[OF ne ev] ev show ?thesis by blast
qed

text \<open>
  C6. When \<open>match_1_to_n\<close> returns an identity, it is the candidate at the first
  position, in list order, whose similarity is maximal: every candidate scores at most
  the returned score and every earlier candidate scores strictly less.
\<close>

theorem match_1_to_n_first_maximal:
  assumes "match_1_to_n threshold q database_embeddings t_start t_end = Inr (Some sid, nm, score, t)"
  shows "\<exists>i < length database_embeddings.
           sid = fst (database_embeddings ! i)
         \<and> nm = Some (fst (snd (database_embeddings ! i)))
         \<and> score = cosine_similarity q (snd (snd (database_embeddings ! i)))
         \<and> (\<forall>j < length database_embeddings.
               cosine_similarity q (snd (snd (database_embeddings ! j))) \<le> score)
         \<and> (\<forall>j < i. cosine_similarity q (snd (snd (database_embeddings ! j))) < score)"
proof -
  let ?sims = "map (\<lambda>item. cosine_similarity q (snd (snd item))) database_embeddings"
  let ?i = "argmax ?sims"
  have ne: "database_embeddings \<noteq> []"
    using assms by (auto simp: match_1_to_n_def)
  then have sne: "?sims \<noteq> []" by simp
  have i: "?i < length database_embeddings" using argmax_props(1)[OF sne] by simp
  have sc: "score = ?sims ! ?i" by (rule match_1_to_n_nonempty_result(1)[OF ne assms])
  have thr: "threshold \<le> score"
  proof (rule ccontr)
    assume "\<not> threshold \<le> score"
    from match_1_to_n_nonempty_result(3)[OF ne assms this] show False by simp
  qed
  from match_1_to_n_nonempty_result(2)[OF ne assms thr]
  have ids: "sid = fst (database_embeddings ! ?i)"
    "nm = Some (fst (snd (database_embeddings ! ?i)))" by simp_all
  have sci: "score = cosine_similarity q (snd (snd (database_embeddings ! ?i)))"
    using sc i by simp
  have all: "\<forall>j < length database_embeddings.
      cosine_similarity q (snd (snd (database_embeddings ! j))) \<le> score"
    using argmax_props(2)[OF sne] sc by simp
  have before: "\<forall>j < ?i. cosine_similarity q (snd (snd (database_embeddings ! j))) < score"
  proof (intro allI impI)
    fix j assume j: "j < ?i"
    then have "?sims ! j < ?sims ! ?i" using argmax_props(3)[OF sne] by blast
    moreover have "j < length database_embeddings" using j i by simp
    ultimately show "cosine_similarity q (snd (snd (database_embeddings ! j))) < score"
      using sc by simp
  qed
  from i ids sci all before show ?thesis by blast
qed

theorem match_1_to_n_first_maximal_witness:
  "\<exists>i < length [(''S1'', ''Ann'', [0, 1]), (''S2'', ''Bob'', [1, 0]), (''S3'', ''Cy'', [1, 0::real])].
      ''S2'' = fst ([(''S1'', ''Ann'', [0, 1]), (''S2'', ''Bob'', [1, 0]), (''S3'', ''Cy'', [1, 0::real])] ! i)
    \<and> (\<forall>j < i. cosine_similarity [1, 0]
          (snd (snd ([(''S1'', ''Ann'', [0, 1]), (''S2'', ''Bob'', [1, 0]), (''S3'', ''Cy'', [1, 0])] ! j))) < 1)"
proof -
  have ev: "match_1_to_n COSINE_SIMILARITY_THRESHOLD [1, 0]
     [(''S1'', ''Ann'', [0, 1]), (''S2'', ''Bob'', [1, 0]), (''S3'', ''Cy'', [1, 0])] 5 7
     = Inr (Some ''S2'', Some ''Bob'', 1, 2000)"
    by (simp add: match_1_to_n_def COSINE_SIMILARITY_THRESHOLD_def cosine_similarity_def
        sk_normalize_def linalg_norm_def dot_def argmax_def Let_def)
  from match_1_to_n_first_maximal[OF ev] show ?thesis by blast
qed

text \<open>
  C1, as the code has it. Let the query be the signature \<open>v\<close> enrolled at position
  \<open>k\<close>, with \<open>v\<close> of non-zero norm and every candidate of the query's dimension.
  Then \<open>match_1_to_n\<close> with the default threshold accepts the match with score 1
  (and \<open>0.80 \<le> 1\<close>); the identity returned is that of the first candidate whose
  similarity to \<open>v\<close> is 1, which is candidate \<open>k\<close> itself whenever no earlier
  candidate has similarity 1 to \<open>v\<close>.
\<close>

theorem match_1_to_n_exact_query:
  assumes "k < length database_embeddings"
    and "database_embeddings ! k = (sid, nm, v)"
    and "linalg_norm v \<noteq> 0"
    and "list_all (\<lambda>item. length (snd (snd item)) = length v) database_embeddings"
  shows "\<exists>i \<le> k.
           match_1_to_n COSINE_SIMILARITY_THRESHOLD v database_embeddings t_start t_end =
             Inr (Some (fst (database_embeddings ! i)), Some (fst (snd (database_embeddings ! i))),
                  1, (t_end - t_start) * 1000)
         \<and> cosine_similarity v (snd (snd (database_embeddings ! i))) = 1
         \<and> (\<forall>j < i. cosine_similarity v (snd (snd (database_embeddings ! j))) < 1)
         \<and> ((\<forall>j < k. cosine_similarity v (snd (snd (database_embeddings ! j))) \<noteq> 1) \<longrightarrow> i = k)
         \<and> COSINE_SIMILARITY_THRESHOLD \<le> 1"
proof -
  let ?db = database_embeddings
  let ?sims = "map (\<lambda>item. cosine_similarity v (snd (snd item))) ?db"
  let ?i = "argmax ?sims"
  have ne: "?db \<noteq> []" using assms(1) by auto
  then have sne: "?sims \<noteq> []" by simp
  have vne: "v \<noteq> []" using assms(3) by (auto simp: linalg_norm_def)
  have i: "?i < length ?db" using argmax_props(1)[OF sne] by simp
  have simk: "?sims ! k = 1"
    using assms(1,2) cosine_similarity_self[OF assms(3)] by simp
  have le1: "?sims ! j \<le> 1" if "j < length ?db" for j
  proof -
    have "?db ! j \<in> set ?db" using that by simp
    then have "length (snd (snd (?db ! j))) = length v"
      using assms(4) by (simp add: list_all_iff)
    then have "cosine_similarity v (snd (snd (?db ! j))) \<le> 1"
      by (intro cosine_similarity_le_1) simp
    then show ?thesis using that by simp
  qed
  have "?sims ! k \<le> ?sims ! ?i" using argmax_props(2)[OF sne] assms(1) by simp
  with simk le1[OF i] have best: "?sims ! ?i = 1" by simp
  have thr: "COSINE_SIMILARITY_THRESHOLD \<le> 1" by (simp add: COSINE_SIMILARITY_THRESHOLD_def)
  have res: "match_1_to_n COSINE_SIMILARITY_THRESHOLD v ?db t_start t_end =
      Inr (Some (fst (?db ! ?i)), Some (fst (snd (?db ! ?i))), 1, (t_end - t_start) * 1000)"
    using thr best by (simp add: match_1_to_n_valid[OF ne vne assms(4)] Let_def)
  have ik: "?i \<le> k"
  proof (rule ccontr)
    assume "\<not> ?i \<le> k"
    then have "k < ?i" by simp
    then have "?sims ! k < ?sims ! ?i" using argmax_props(3)[OF sne] by blast
    with simk best show False by simp
  qed
  have cosi: "cosine_similarity v (snd (snd (?db ! ?i))) = 1" using best i by simp
  have before: "\<forall>j < ?i. cosine_similarity v (snd (snd (?db ! j))) < 1"
  proof (intro allI impI)
    fix j assume j: "j < ?i"
    then have "?sims ! j < ?sims ! ?i" using argmax_props(3)[OF sne] by blast
    moreover have "j < length ?db" using j i by simp
    ultimately show "cosine_similarity v (snd (snd (?db ! j))) < 1" using best by simp
  qed
  have uniq: "(\<forall>j < k. cosine_similarity v (snd (snd (?db ! j))) \<noteq> 1) \<longrightarrow> ?i = k"
  proof
    assume a: "\<forall>j < k. cosine_similarity v (snd (snd (?db ! j))) \<noteq> 1"
    show "?i = k"
    proof (rule ccontr)
      assume "?i \<noteq> k"
      with ik have "?i < k" by simp
      with a cosi show False by blast
    qed
  qed
  from ik res cosi before uniq thr show ?thesis by blast
qed

theorem match_1_to_n_exact_query_witness:
  "\<exists>i \<le> (1::nat).
     match_1_to_n COSINE_SIMILARITY_THRESHOLD [0, 1]
        [(''S1'', ''Ann'', [1, 0]), (''S2'', ''Bob'', [0, 1]), (''S3'', ''Cy'', [0, 2])] 5 7 =
       Inr (Some (fst ([(''S1'', ''Ann'', [1, 0]), (''S2'', ''Bob'', [0, 1]), (''S3'', ''Cy'', [0, 2::real])] ! i)),
            Some (fst (snd ([(''S1'', ''Ann'', [1, 0]), (''S2'', ''Bob'', [0, 1]), (''S3'', ''Cy'', [0, 2::real])] ! i))),
            1, (7 - 5) * 1000)"
proof -
  have k: "(1::nat) < length [(''S1'', ''Ann'', [1, 0]), (''S2'', ''Bob'', [0, 1]), (''S3'', ''Cy'', [0, 2::real])]"
    by simp
  have e: "[(''S1'', ''Ann'', [1, 0]), (''S2'', ''Bob'', [0, 1]), (''S3'', ''Cy'', [0, 2::real])] ! 1
          = (''S2'', ''Bob'', [0, 1])" by simp
  have n: "linalg_norm [0, 1] \<noteq> 0" by (simp add: linalg_norm_def)
  have d: "list_all (\<lambda>item. length (snd (snd item)) = length [0, 1::real])
     [(''S1'', ''Ann'', [1, 0]), (''S2'', ''Bob'', [0, 1]), (''S3'', ''Cy'', [0, 2::real])]" by simp
  from match_1_to_n_exact_query[OF k e n d, of 5 7] show ?thesis by blast
qed

text \<open>
  C1 as stated fails when two candidates carry the same signature: the query equals
  the signature enrolled for \<open>S2\<close>, and the identity returned is \<open>S1\<close>.
\<close>

theorem match_1_to_n_duplicate_signature_counterexample:
  "[(''S1'', ''Ann'', [1, 0]), (''S2'', ''Bob'', [1, 0::real])] ! 1 = (''S2'', ''Bob'', [1, 0])
   \<and> match_1_to_n COSINE_SIMILARITY_THRESHOLD [1, 0]
        [(''S1'', ''Ann'', [1, 0]), (''S2'', ''Bob'', [1, 0])] 5 7
      = Inr (Some ''S1'', Some ''Ann'', 1, 2000)"
  by (simp add: match_1_to_n_def COSINE_SIMILARITY_THRESHOLD_def cosine_similarity_def
      sk_normalize_def linalg_norm_def dot_def argmax_def Let_def)

section \<open>Claims about the embedder\<close>

lemma length_pad_or_truncate: "length (pad_or_truncate v) = EMBEDDING_DIM"
  by (simp add: pad_or_truncate_def)

lemma length_normalize_embedding: "length (normalize_embedding v) = length v"
  by (simp add: normalize_embedding_def Let_def)

lemma linalg_norm_zero_replicate:
  assumes "linalg_norm v = 0"
  shows "v = replicate (length v) 0"
proof -
  have "dot v v = 0" using assms by (simp only: linalg_norm_zero_iff)
  then have "\<forall>y \<in> set v. y = 0" using dot_self_zero by blast
  then show ?thesis by (simp add: replicate_length_same)
qed

lemma linalg_norm_normalize_embedding:
  assumes "linalg_norm v \<noteq> 0"
  shows "linalg_norm (normalize_embedding v) = 1"
proof -
  define n where "n = linalg_norm v"
  have n: "n \<noteq> 0" using assms by (simp add: n_def)
  have nn: "n * n = dot v v" by (simp only: n_def linalg_norm_square)
  have "normalize_embedding v = map (\<lambda>x. x / n) v"
    using n by (simp add: normalize_embedding_def Let_def n_def)
  then have "linalg_norm (normalize_embedding v) = sqrt (dot (map (\<lambda>x. x / n) v) (map (\<lambda>x. x / n) v))"
    by (simp only: linalg_norm_dot)
  also have "\<dots> = sqrt (dot v v / (n * n))" by (simp only: dot_scale)
  also have "\<dots> = sqrt 1" using n by (simp add: nn[symmetric])
  finally show ?thesis by simp
qed

text \<open>
  C3, as the code has it. When the model output, padded or truncated to
  \<open>EMBEDDING_DIM\<close> components, has L2 norm zero, \<open>generate_embedding\<close> divides
  nothing and returns that vector as it is: the all-zero vector of \<open>EMBEDDING_DIM\<close>
  components, not \<open>None\<close>.
\<close>

theorem generate_embedding_zero_norm:
  assumes "image_size img \<noteq> 0" and "run img = Some raw"
    and "linalg_norm (pad_or_truncate raw) = 0"
  shows "generate_embedding (Some run) (Some img) = Some (replicate EMBEDDING_DIM 0)"
proof -
  have z: "pad_or_truncate raw = replicate EMBEDDING_DIM 0"
    using linalg_norm_zero_replicate[OF assms(3)] by (simp only: length_pad_or_truncate)
  have "normalize_embedding (pad_or_truncate raw) = pad_or_truncate raw"
    using assms(3) by (simp add: normalize_embedding_def Let_def)
  then show ?thesis using assms(1,2) z by (simp add: generate_embedding_def)
qed

theorem generate_embedding_zero_norm_witness:
  "generate_embedding (Some (\<lambda>img. Some [0, 0, 0])) (Some [[(0, 0, 0)]])
     = Some (replicate EMBEDDING_DIM 0)"
proof -
  have a: "image_size [[(0, 0, 0)]] \<noteq> 0" by (simp add: image_size_def image_width_def)
  have b: "(\<lambda>img :: image. Some [0, 0, 0 :: real]) [[(0, 0, 0)]] = Some [0, 0, 0]" by simp
  have c: "linalg_norm (pad_or_truncate [0, 0, 0]) = 0"
    by (simp add: pad_or_truncate_def EMBEDDING_DIM_def linalg_norm_def sum_list_replicate)
  from generate_embedding_zero_norm[OF a b c] show ?thesis .
qed

text \<open>
  C3 as stated fails: a model output of zero norm yields a result other than
  \<open>None\<close>.
\<close>

theorem generate_embedding_zero_output_counterexample:
  "linalg_norm (pad_or_truncate [0, 0]) = 0
   \<and> generate_embedding (Some (\<lambda>img. Some [0, 0])) (Some [[(0, 0, 0)]]) \<noteq> None"
  by (simp add: generate_embedding_def image_size_def image_width_def pad_or_truncate_def
      EMBEDDING_DIM_def linalg_norm_def sum_list_replicate)

text \<open>
  C7, as the code has it. Every signature \<open>generate_embedding\<close> returns has exactly
  \<open>EMBEDDING_DIM\<close> components, and its L2 norm is 1 unless it is the all-zero vector
  (returned when the padded or truncated model output has norm zero). It is returned
  for a loaded model and a non-empty crop, and is the normalised padded or truncated
  model output: of norm 1 when that output has non-zero norm, all zeros otherwise.
\<close>

theorem generate_embedding_unit_or_zero:
  assumes "generate_embedding session face_image = Some e"
  shows "length e = EMBEDDING_DIM \<and> (e \<noteq> replicate EMBEDDING_DIM 0 \<longrightarrow> linalg_norm e = 1)
       \<and> (\<exists>run img raw.
             session = Some run \<and> face_image = Some img \<and> image_size img \<noteq> 0
           \<and> run img = Some raw
           \<and> e = normalize_embedding (pad_or_truncate raw)
           \<and> (linalg_norm (pad_or_truncate raw) \<noteq> 0 \<longrightarrow> linalg_norm e = 1)
           \<and> (linalg_norm (pad_or_truncate raw) = 0 \<longrightarrow> e = replicate EMBEDDING_DIM 0))"
proof -
  from assms obtain run img raw where src: "session = Some run" "face_image = Some img"
    "image_size img \<noteq> 0" "run img = Some raw"
    and e: "e = normalize_embedding (pad_or_truncate raw)"
    by (auto simp: generate_embedding_def split: option.splits if_splits)
  have len: "length e = EMBEDDING_DIM"
    by (simp only: e length_normalize_embedding length_pad_or_truncate)
  have "linalg_norm e = 1" if ne: "e \<noteq> replicate EMBEDDING_DIM 0"
  proof (cases "linalg_norm (pad_or_truncate raw) = 0")
    case True
    then have "normalize_embedding (pad_or_truncate raw) = pad_or_truncate raw"
      by (simp add: normalize_embedding_def Let_def)
    moreover have "pad_or_truncate raw = replicate EMBEDDING_DIM 0"
      using linalg_norm_zero_replicate[OF True] by (simp only: length_pad_or_truncate)
    ultimately show ?thesis using ne e by simp
  next
    case False
    from linalg_norm_normalize_embedding[OF False] show ?thesis by (simp only: e)
  qed
  then have unit: "e \<noteq> replicate EMBEDDING_DIM 0 \<longrightarrow> linalg_norm e = 1" by blast
  have nz: "linalg_norm (pad_or_truncate raw) \<noteq> 0 \<longrightarrow> linalg_norm e = 1"
    using linalg_norm_normalize_embedding[of "pad_or_truncate raw"] by (simp only: e) blast
  have zr: "linalg_norm (pad_or_truncate raw) = 0 \<longrightarrow> e = replicate EMBEDDING_DIM 0"
  proof
    assume z: "linalg_norm (pad_or_truncate raw) = 0"
    then have "normalize_embedding (pad_or_truncate raw) = pad_or_truncate raw"
      by (simp add: normalize_embedding_def Let_def)
    moreover have "pad_or_truncate raw = replicate EMBEDDING_DIM 0"
      using linalg_norm_zero_replicate[OF z] by (simp only: length_pad_or_truncate)
    ultimately show "e = replicate EMBEDDING_DIM 0" by (simp only: e)
  qed
  from src e nz zr have "\<exists>run img raw.
        session = Some run \<and> face_image = Some img \<and> image_size img \<noteq> 0
      \<and> run img = Some raw
      \<and> e = normalize_embedding (pad_or_truncate raw)
      \<and> (linalg_norm (pad_or_truncate raw) \<noteq> 0 \<longrightarrow> linalg_norm e = 1)
      \<and> (linalg_norm (pad_or_truncate raw) = 0 \<longrightarrow> e = replicate EMBEDDING_DIM 0)"
    by blast
  with len unit show ?thesis by (intro conjI)
qed

theorem generate_embedding_unit_or_zero_witness:
  "generate_embedding (Some (\<lambda>img. Some [3, 4])) (Some [[(0, 0, 0)]])
     = Some (normalize_embedding (pad_or_truncate [3, 4]))
   \<and> length (normalize_embedding (pad_or_truncate [3, 4])) = EMBEDDING_DIM
   \<and> linalg_norm (normalize_embedding (pad_or_truncate [3, 4])) = 1"
proof -
  have ev: "generate_embedding (Some (\<lambda>img. Some [3, 4])) (Some [[(0, 0, 0)]])
     = Some (normalize_embedding (pad_or_truncate [3, 4]))"
    by (simp add: generate_embedding_def image_size_def image_width_def)
  have "hd (normalize_embedding (pad_or_truncate [3, 4])) \<noteq> 0"
    by (simp add: normalize_embedding_def pad_or_truncate_def EMBEDDING_DIM_def linalg_norm_def sum_list_replicate)
  moreover have "hd (replicate EMBEDDING_DIM (0::real)) = 0" by (simp add: EMBEDDING_DIM_def)
  ultimately have ne: "normalize_embedding (pad_or_truncate [3, 4]) \<noteq> replicate EMBEDDING_DIM 0"
    by metis
  from generate_embedding_unit_or_zero[OF ev] ne ev show ?thesis by blast
qed

text \<open>
  C7 as stated fails: on a non-empty crop whose model output is all zeros, a signature
  is returned and its norm is 0.
\<close>

theorem generate_embedding_zero_vector_counterexample:
  "generate_embedding (Some (\<lambda>img. Some (replicate 512 0))) (Some [[(0, 0, 0)]])
     = Some (replicate 512 0)
   \<and> linalg_norm (replicate 512 0) = 0"
  by (simp add: generate_embedding_def image_size_def image_width_def pad_or_truncate_def
      EMBEDDING_DIM_def linalg_norm_def normalize_embedding_def sum_list_replicate)

section \<open>Claims about the detector\<close>

lemma detect_faces_count_one:
  "detect_faces_count process img = 1 \<longleftrightarrow> (\<exists>d. process img = Some [d])"
  by (auto simp: detect_faces_count_def length_Suc_conv split: option.splits)

lemma detect_single_face_one:
  assumes "process img = Some [d]"
  shows "detect_single_face process img =
     (case det_score d of
        [] \<Rightarrow> Inl IndexError
      | confidence # _ \<Rightarrow>
          let h = int (length img);
              w = int (image_width img);
              x = max 0 (py_int (xmin (location_data d) * real_of_int w) - FACE_CROP_PADDING);
              y = max 0 (py_int (ymin (location_data d) * real_of_int h) - FACE_CROP_PADDING);
              box_w = min (w - x) (py_int (width (location_data d) * real_of_int w) + 2 * FACE_CROP_PADDING);
              box_h = min (h - y) (py_int (height (location_data d) * real_of_int h) + 2 * FACE_CROP_PADDING)
          in Inr (Some (map (\<lambda>row. py_slice row x (x + box_w)) (py_slice img y (y + box_h)),
                        ((x, y, box_w, box_h), confidence))))"
  using assms by (simp add: detect_single_face_def Let_def split: list.splits)

lemma detect_single_face_None_iff:
  "detect_single_face process img = Inr None \<longleftrightarrow> (\<forall>d. process img \<noteq> Some [d])"
proof (cases "\<exists>d. process img = Some [d]")
  case True
  then obtain d where d: "process img = Some [d]" by blast
  show ?thesis using d by (simp add: detect_single_face_one[of process img d, OF d] Let_def split: list.splits)
next
  case False
  then have "detect_single_face process img = Inr None"
    by (auto simp: detect_single_face_def length_Suc_conv split: option.splits)
  with False show ?thesis by simp
qed

lemma py_slice_length:
  assumes "0 \<le> a" "0 \<le> b" "a + b \<le> int (length xs)"
  shows "length (py_slice xs a (a + b)) = nat b"
proof -
  have a: "slice_bound (int (length xs)) a = a"
    using assms by (simp add: slice_bound_def)
  have b: "slice_bound (int (length xs)) (a + b) = a + b"
    using assms by (simp add: slice_bound_def)
  have "nat a + nat b \<le> length xs" using assms by linarith
  then have "min (length xs - nat a) (nat b) = nat b" by linarith
  then show ?thesis by (simp add: py_slice_def Let_def a b)
qed

lemma py_slice_subset: "set (py_slice xs a b) \<subseteq> set xs"
proof -
  have "set (py_slice xs a b) \<subseteq> set (drop (nat (slice_bound (int (length xs)) a)) xs)"
    by (simp add: py_slice_def Let_def set_take_subset)
  also have "\<dots> \<subseteq> set xs" by (rule set_drop_subset)
  finally show ?thesis .
qed

lemma image_width_replicate: "0 < n \<Longrightarrow> image_width (replicate n row) = length row"
  by (cases n) (simp_all add: image_width_def)

text \<open>
  C8. \<open>detect_single_face\<close> returns \<open>None\<close> exactly when the number of detected
  faces, as \<open>detect_faces_count\<close> counts them, differs from 1. When exactly one face
  is detected it returns one crop with its bounding box and the detection's confidence
  (the first score of the detection): the bounding box is the detection's relative box
  scaled to the frame, truncated to integers, moved up and left by
  \<open>FACE_CROP_PADDING\<close> (not below 0), widened by twice the padding and clipped to the
  frame; the crop is the slice of the frame at that box. The box lies inside the frame,
  and for a rectangular frame and a box of non-negative extent the crop has exactly
  the box's height and width.
\<close>

theorem detect_single_face_exactly_one:
  "(detect_single_face process img = Inr None \<longleftrightarrow> detect_faces_count process img \<noteq> 1)
   \<and> (detect_faces_count process img = 1 \<longrightarrow>
        (\<exists>d. process img = Some [d]
           \<and> (\<forall>c cs. det_score d = c # cs \<longrightarrow>
                 (let h = int (length img);
                      w = int (image_width img);
                      x = max 0 (py_int (xmin (location_data d) * real_of_int w) - FACE_CROP_PADDING);
                      y = max 0 (py_int (ymin (location_data d) * real_of_int h) - FACE_CROP_PADDING);
                      box_w = min (w - x)
                                (py_int (width (location_data d) * real_of_int w) + 2 * FACE_CROP_PADDING);
                      box_h = min (h - y)
                                (py_int (height (location_data d) * real_of_int h) + 2 * FACE_CROP_PADDING);
                      face_crop = map (\<lambda>row. py_slice row x (x + box_w)) (py_slice img y (y + box_h))
                  in detect_single_face process img = Inr (Some (face_crop, ((x, y, box_w, box_h), c)))
                   \<and> 0 \<le> x \<and> 0 \<le> y \<and> x + box_w \<le> w \<and> y + box_h \<le> h
                   \<and> (0 \<le> box_w \<and> 0 \<le> box_h \<and> list_all (\<lambda>row. length row = image_width img) img \<longrightarrow>
                        length face_crop = nat box_h
                        \<and> list_all (\<lambda>row. length row = nat box_w) face_crop)))))"
proof (intro conjI impI)
  show "detect_single_face process img = Inr None \<longleftrightarrow> detect_faces_count process img \<noteq> 1"
    by (simp only: detect_single_face_None_iff detect_faces_count_one) blast
next
  assume "detect_faces_count process img = 1"
  then obtain d where d: "process img = Some [d]" by (auto simp only: detect_faces_count_one)
  define h where "h = int (length img)"
  define w where "w = int (image_width img)"
  define x where "x = max 0 (py_int (xmin (location_data d) * real_of_int w) - FACE_CROP_PADDING)"
  define y where "y = max 0 (py_int (ymin (location_data d) * real_of_int h) - FACE_CROP_PADDING)"
  define box_w where "box_w = min (w - x)
      (py_int (width (location_data d) * real_of_int w) + 2 * FACE_CROP_PADDING)"
  define box_h where "box_h = min (h - y)
      (py_int (height (location_data d) * real_of_int h) + 2 * FACE_CROP_PADDING)"
  define face_crop where
    "face_crop = map (\<lambda>row. py_slice row x (x + box_w)) (py_slice img y (y + box_h))"
  have res: "detect_single_face process img = Inr (Some (face_crop, ((x, y, box_w, box_h), c)))"
    if "det_score d = c # cs" for c cs
    using that
    by (simp add: detect_single_face_one[of process img d, OF d] Let_def
        h_def w_def x_def y_def box_w_def box_h_def face_crop_def)
  have bounds: "0 \<le> x" "0 \<le> y" "x + box_w \<le> w" "y + box_h \<le> h"
    by (simp_all add: x_def y_def box_w_def box_h_def)
  have dims: "length face_crop = nat box_h \<and> list_all (\<lambda>row. length row = nat box_w) face_crop"
    if nn: "0 \<le> box_w" "0 \<le> box_h" and rect: "list_all (\<lambda>row. length row = image_width img) img"
  proof
    have "y + box_h \<le> int (length img)" using bounds(4) by (simp add: h_def)
    then have "length (py_slice img y (y + box_h)) = nat box_h"
      using bounds(2) nn(2) by (intro py_slice_length)
    then show "length face_crop = nat box_h" by (simp add: face_crop_def)
    have "length (py_slice row x (x + box_w)) = nat box_w"
      if "row \<in> set (py_slice img y (y + box_h))" for row
    proof -
      have "row \<in> set img" using that py_slice_subset[of img y "y + box_h"] by auto
      then have "int (length row) = w" using rect by (simp add: list_all_iff w_def)
      then have "x + box_w \<le> int (length row)" using bounds(3) by simp
      then show ?thesis using bounds(1) nn(1) by (intro py_slice_length)
    qed
    then show "list_all (\<lambda>row. length row = nat box_w) face_crop"
      by (simp add: face_crop_def list_all_iff)
  qed
  have "let h = int (length img);
            w = int (image_width img);
            x = max 0 (py_int (xmin (location_data d) * real_of_int w) - FACE_CROP_PADDING);
            y = max 0 (py_int (ymin (location_data d) * real_of_int h) - FACE_CROP_PADDING);
            box_w = min (w - x)
                      (py_int (width (location_data d) * real_of_int w) + 2 * FACE_CROP_PADDING);
            box_h = min (h - y)
                      (py_int (height (location_data d) * real_of_int h) + 2 * FACE_CROP_PADDING);
            face_crop = map (\<lambda>row. py_slice row x (x + box_w)) (py_slice img y (y + box_h))
        in detect_single_face process img = Inr (Some (face_crop, ((x, y, box_w, box_h), c)))
         \<and> 0 \<le> x \<and> 0 \<le> y \<and> x + box_w \<le> w \<and> y + box_h \<le> h
         \<and> (0 \<le> box_w \<and> 0 \<le> box_h \<and> list_all (\<lambda>row. length row = image_width img) img \<longrightarrow>
              length face_crop = nat box_h
              \<and> list_all (\<lambda>row. length row = nat box_w) face_crop)"
    if sc: "det_score d = c # cs" for c cs
    unfolding Let_def
    using res[OF sc] bounds dims
    unfolding h_def w_def x_def y_def box_w_def box_h_def face_crop_def
    by blast
  with d show "\<exists>d. process img = Some [d]
      \<and> (\<forall>c cs. det_score d = c # cs \<longrightarrow>
            (let h = int (length img);
                 w = int (image_width img);
                 x = max 0 (py_int (xmin (location_data d) * real_of_int w) - FACE_CROP_PADDING);
                 y = max 0 (py_int (ymin (location_data d) * real_of_int h) - FACE_CROP_PADDING);
                 box_w = min (w - x)
                           (py_int (width (location_data d) * real_of_int w) + 2 * FACE_CROP_PADDING);
                 box_h = min (h - y)
                           (py_int (height (location_data d) * real_of_int h) + 2 * FACE_CROP_PADDING);
                 face_crop = map (\<lambda>row. py_slice row x (x + box_w)) (py_slice img y (y + box_h))
             in detect_single_face process img = Inr (Some (face_crop, ((x, y, box_w, box_h), c)))
              \<and> 0 \<le> x \<and> 0 \<le> y \<and> x + box_w \<le> w \<and> y + box_h \<le> h
              \<and> (0 \<le> box_w \<and> 0 \<le> box_h \<and> list_all (\<lambda>row. length row = image_width img) img \<longrightarrow>
                   length face_crop = nat box_h
                   \<and> list_all (\<lambda>row. length row = nat box_w) face_crop)))"
    by blast
qed


theorem detect_single_face_exactly_one_witness:
  "detect_faces_count
     (\<lambda>img. Some [\<lparr>location_data = \<lparr>xmin = 4 / 10, ymin = 4 / 10, width = 1 / 10, height = 2 / 10\<rparr>,
                     det_score = [9 / 10]\<rparr>]) (replicate 100 (replicate 100 (0, 0, 0))) = 1
   \<and> detect_single_face
         (\<lambda>img. Some [\<lparr>location_data = \<lparr>xmin = 4 / 10, ymin = 4 / 10, width = 1 / 10, height = 2 / 10\<rparr>,
                         det_score = [9 / 10]\<rparr>]) (replicate 100 (replicate 100 (0, 0, 0)))
       = Inr (Some (replicate 60 (replicate 50 (0, 0, 0)), ((20, 20, 50, 60), 9 / 10)))
   \<and> detect_single_face (\<lambda>img. Some []) (replicate 100 (replicate 100 (0, 0, 0))) = Inr None"
proof -
  define d0 :: detection where
    "d0 = \<lparr>location_data = \<lparr>xmin = 4 / 10, ymin = 4 / 10, width = 1 / 10, height = 2 / 10\<rparr>,
            det_score = [9 / 10]\<rparr>"
  define I :: image where "I = replicate 100 (replicate 100 (0, 0, 0))"
  have c: "detect_faces_count (\<lambda>img. Some [d0]) I = 1" by (simp add: detect_faces_count_def)
  have z: "detect_faces_count (\<lambda>img :: image. Some []) I \<noteq> 1"
    by (simp add: detect_faces_count_def)
  have hI: "int (length I) = 100" by (simp add: I_def)
  have wI: "int (image_width I) = 100" by (simp add: I_def image_width_replicate)
  have x: "max 0 (py_int (xmin (location_data d0) * real_of_int 100) - FACE_CROP_PADDING) = 20"
    by (simp add: d0_def py_int_def FACE_CROP_PADDING_def)
  have y: "max 0 (py_int (ymin (location_data d0) * real_of_int 100) - FACE_CROP_PADDING) = 20"
    by (simp add: d0_def py_int_def FACE_CROP_PADDING_def)
  have bw: "min (100 - 20) (py_int (width (location_data d0) * real_of_int 100)
              + 2 * FACE_CROP_PADDING) = 50"
    by (simp add: d0_def py_int_def FACE_CROP_PADDING_def)
  have bh: "min (100 - 20) (py_int (height (location_data d0) * real_of_int 100)
              + 2 * FACE_CROP_PADDING) = 60"
    by (simp add: d0_def py_int_def FACE_CROP_PADDING_def)
  have crop: "map (\<lambda>row. py_slice row 20 (20 + 50)) (py_slice I 20 (20 + 60))
      = replicate 60 (replicate 50 (0, 0, 0))"
    by (simp add: I_def py_slice_def slice_bound_def)
  from detect_single_face_exactly_one[of "\<lambda>img. Some [d0]" I, THEN conjunct2, THEN mp, OF c]
  obtain d where d: "(\<lambda>img :: image. Some [d0]) I = Some [d]"
    and al: "\<forall>c cs. det_score d = c # cs \<longrightarrow>
          (let h = int (length I);
               w = int (image_width I);
               x = max 0 (py_int (xmin (location_data d) * real_of_int w) - FACE_CROP_PADDING);
               y = max 0 (py_int (ymin (location_data d) * real_of_int h) - FACE_CROP_PADDING);
               box_w = min (w - x)
                         (py_int (width (location_data d) * real_of_int w) + 2 * FACE_CROP_PADDING);
               box_h = min (h - y)
                         (py_int (height (location_data d) * real_of_int h) + 2 * FACE_CROP_PADDING);
               face_crop = map (\<lambda>row. py_slice row x (x + box_w)) (py_slice I y (y + box_h))
           in detect_single_face (\<lambda>img. Some [d0]) I = Inr (Some (face_crop, ((x, y, box_w, box_h), c)))
            \<and> 0 \<le> x \<and> 0 \<le> y \<and> x + box_w \<le> w \<and> y + box_h \<le> h
            \<and> (0 \<le> box_w \<and> 0 \<le> box_h \<and> list_all (\<lambda>row. length row = image_width I) I \<longrightarrow>
                 length face_crop = nat box_h
                 \<and> list_all (\<lambda>row. length row = nat box_w) face_crop))"
    by (elim exE conjE)
  have dd: "d = d0" using d by simp
  have sc: "det_score d = 9 / 10 # []" by (simp add: dd d0_def)
  note r = al[rule_format, OF sc, unfolded Let_def, THEN conjunct1]
  have one: "detect_single_face (\<lambda>img. Some [d0]) I
      = Inr (Some (replicate 60 (replicate 50 (0, 0, 0)), ((20, 20, 50, 60), 9 / 10)))"
    using r by (simp only: dd hI wI x y bw bh crop)
  from detect_single_face_exactly_one[of "\<lambda>img. Some []" I] z
  have none: "detect_single_face (\<lambda>img. Some []) I = Inr None" by (elim conjE) simp
  from c one none show ?thesis unfolding d0_def I_def by (intro conjI)
qed

section \<open>Claims about the liveness check\<close>

lemma np_mean_zeros: "\<forall>x \<in> set xs. x = 0 \<Longrightarrow> np_mean xs = 0"
proof -
  assume "\<forall>x \<in> set xs. x = 0"
  then have "sum_list xs = 0" by (induction xs) simp_all
  then show ?thesis by (simp add: np_mean_def)
qed

lemma np_mean_replicate: "0 < n \<Longrightarrow> np_mean (replicate n x) = x"
  by (simp add: np_mean_def sum_list_replicate)

lemma np_var_replicate: "np_var (replicate n x) = 0"
proof (cases "n = 0")
  case True
  then show ?thesis by (simp add: np_var_def np_mean_def)
next
  case False
  then have "np_mean (replicate n x) = x" by (simp add: np_mean_replicate)
  then show ?thesis by (simp add: np_var_def np_mean_zeros)
qed

lemma extract_sequence_same:
  assumes "\<forall>f \<in> set frames. extract_landmarks face_mesh f = Some l"
  shows "extract_sequence face_mesh frames acc = Some (acc @ replicate (length frames) l)"
  using assms
proof (induction frames arbitrary: acc)
  case Nil
  then show ?case by simp
next
  case (Cons f frames)
  then show ?case by (simp add: replicate_app_Cons_same)
qed

lemma extract_sequence_none:
  assumes "frames \<noteq> []" and "\<forall>f \<in> set frames. extract_landmarks face_mesh f = None"
  shows "extract_sequence face_mesh frames acc = None"
  using assms by (cases frames) simp_all

lemma np_var_replicate_Cons: "np_var (x # replicate m x) = 0"
  using np_var_replicate[of "Suc m" x] by simp

lemma calculate_movement_variance_replicate:
  assumes "0 < n"
  shows "calculate_movement_variance (replicate n l) = Inr 0"
proof -
  obtain m where n: "n = Suc m" using assms by (cases n) auto
  show ?thesis
    unfolding n
    by (auto simp: calculate_movement_variance_def Let_def list_all_iff np_var_replicate_Cons
        intro!: np_mean_zeros split: if_splits)
qed

lemma calculate_ear_error_iff:
  "calculate_ear l idx = Inl IndexError \<longleftrightarrow> \<not> list_all (\<lambda>i. i < length l) idx"
  by (simp add: calculate_ear_def Let_def)

lemma calculate_ear_cases:
  "calculate_ear l idx = Inl IndexError \<or> (\<exists>v. calculate_ear l idx = Inr v)"
  by (simp add: calculate_ear_def Let_def)

lemma eye_indices_in_range:
  "list_all (\<lambda>i. i < length l) LEFT_EYE_INDICES \<and> list_all (\<lambda>i. i < length l) RIGHT_EYE_INDICES
     \<longleftrightarrow> 387 < length l"
  by (auto simp: LEFT_EYE_INDICES_def RIGHT_EYE_INDICES_def)

lemma ear_values_replicate_error:
  assumes "\<not> 387 < length l" "0 < n"
  shows "ear_values (replicate n l) = Inl IndexError"
proof -
  obtain m where n: "n = Suc m" using assms(2) by (cases n) auto
  have "\<not> list_all (\<lambda>i. i < length l) LEFT_EYE_INDICES
      \<or> \<not> list_all (\<lambda>i. i < length l) RIGHT_EYE_INDICES"
    using assms(1) eye_indices_in_range[of l] by blast
  then have "calculate_ear l LEFT_EYE_INDICES = Inl IndexError
      \<or> calculate_ear l RIGHT_EYE_INDICES = Inl IndexError"
    by (simp only: calculate_ear_error_iff)
  then show ?thesis
    using calculate_ear_cases[of l LEFT_EYE_INDICES]
    by (auto simp: n)
qed

lemma ear_values_replicate_ok:
  assumes "387 < length l"
  shows "\<exists>v. ear_values (replicate n l) = Inr (replicate n v)"
proof -
  have "calculate_ear l LEFT_EYE_INDICES \<noteq> Inl IndexError"
    "calculate_ear l RIGHT_EYE_INDICES \<noteq> Inl IndexError"
    using assms eye_indices_in_range[of l] by (simp_all only: calculate_ear_error_iff) blast+
  then obtain a b where a: "calculate_ear l LEFT_EYE_INDICES = Inr a"
    and b: "calculate_ear l RIGHT_EYE_INDICES = Inr b"
    using calculate_ear_cases by blast
  define v where "v = (case (a, b) of (Some x, Some y) \<Rightarrow> Some ((x + y) / 2) | _ \<Rightarrow> None)"
  have "ear_values (replicate n l) = Inr (replicate n v)"
    by (induction n) (simp_all add: a b v_def)
  then show ?thesis by blast
qed

lemma detect_blink_replicate_ok:
  assumes "387 < length l"
  shows "detect_blink (replicate n l) = Inr False"
proof -
  obtain v where v: "ear_values (replicate n l) = Inr (replicate n v)"
    using ear_values_replicate_ok[OF assms] by blast
  show ?thesis
  proof (cases "list_all (\<lambda>v. v \<noteq> None) (replicate n v)")
    case True
    have "np_var (map the (replicate n v)) = 0" by (simp add: np_var_replicate)
    then show ?thesis using True by (simp add: detect_blink_def v EYE_ASPECT_RATIO_THRESHOLD_def)
  next
    case False
    then show ?thesis by (simp add: detect_blink_def v)
  qed
qed

lemma detect_blink_replicate_error:
  assumes "\<not> 387 < length l" "0 < n"
  shows "detect_blink (replicate n l) = Inl IndexError"
  by (simp add: detect_blink_def ear_values_replicate_error[OF assms])

text \<open>
  C9. For a sequence of at least \<open>LIVENESS_FRAMES_COUNT\<close> frames whose extracted
  landmarks are the same in every frame, \<open>check_liveness\<close> never answers that the
  subject is live. With the landmarks MediaPipe delivers (more than 387 points, so that
  every eye index is in range) the movement variance is 0, no blink is detected, and
  the answer is \<open>(False, 0, Static image detected)\<close>; without landmarks the answer
  is \<open>(False, 0, Face landmarks not detected)\<close>; with too few points the eye lookup
  raises \<open>IndexError\<close>.
\<close>

theorem check_liveness_static:
  assumes "LIVENESS_FRAMES_COUNT \<le> length frames"
    and "\<forall>f \<in> set frames. extract_landmarks face_mesh f = lms"
  shows "(lms = None \<longrightarrow>
            check_liveness face_mesh frames = Inr (False, 0, ''Face landmarks not detected''))
       \<and> (\<forall>l. lms = Some l \<and> 387 < length l \<longrightarrow>
            check_liveness face_mesh frames = Inr (False, 0, ''Static image detected (no movement)''))
       \<and> (\<forall>l. lms = Some l \<and> \<not> 387 < length l \<longrightarrow>
            check_liveness face_mesh frames = Inl IndexError)
       \<and> (\<forall>is_live confidence reason.
            check_liveness face_mesh frames = Inr (is_live, confidence, reason) \<longrightarrow> \<not> is_live)"
proof -
  have len: "\<not> length frames < LIVENESS_FRAMES_COUNT" using assms(1) by simp
  have pos: "0 < length frames" using assms(1) unfolding LIVENESS_FRAMES_COUNT_def by linarith
  then have ne: "frames \<noteq> []" by auto
  have none: "check_liveness face_mesh frames = Inr (False, 0, ''Face landmarks not detected'')"
    if "lms = None"
    using len extract_sequence_none[OF ne, of face_mesh "[]"] assms(2) that
    by (simp add: check_liveness_def)
  have seq: "extract_sequence face_mesh frames [] = Some (replicate (length frames) l)"
    if "lms = Some l" for l
    using extract_sequence_same[of frames face_mesh l "[]"] assms(2) that by simp
  have ok: "check_liveness face_mesh frames = Inr (False, 0, ''Static image detected (no movement)'')"
    if "lms = Some l" "387 < length l" for l
    using len
    by (simp add: check_liveness_def seq[OF that(1)] calculate_movement_variance_replicate[OF pos]
        detect_blink_replicate_ok[OF that(2)] LIVENESS_MOVEMENT_THRESHOLD_def)
  have err: "check_liveness face_mesh frames = Inl IndexError"
    if "lms = Some l" "\<not> 387 < length l" for l
    using len
    by (simp add: check_liveness_def seq[OF that(1)] calculate_movement_variance_replicate[OF pos]
        detect_blink_replicate_error[OF that(2) pos])
  have notlive: "\<not> is_live"
    if r: "check_liveness face_mesh frames = Inr (is_live, confidence, reason)"
    for is_live confidence reason
  proof (cases lms)
    case None
    with none r show ?thesis by simp
  next
    case (Some l)
    show ?thesis
    proof (cases "387 < length l")
      case True
      with ok[OF Some] r show ?thesis by simp
    next
      case False
      with err[OF Some] r show ?thesis by simp
    qed
  qed
  from none ok err notlive show ?thesis by blast
qed


theorem check_liveness_static_witness:
  "check_liveness (\<lambda>img. Some [replicate 478 (1 / 2, 1 / 2, 0)])
     [[[(0, 0, 0)]], [[(0, 0, 0)]], [[(0, 0, 0)]]]
   = Inr (False, 0, ''Static image detected (no movement)'')"
proof -
  let ?fm = "\<lambda>img :: image. Some [replicate 478 (1 / 2 :: real, 1 / 2 :: real, 0 :: real)]"
  let ?frames = "[[[(0, 0, 0)]], [[(0, 0, 0)]], [[(0, 0, 0)]]] :: image list"
  have a: "LIVENESS_FRAMES_COUNT \<le> length ?frames" by (simp add: LIVENESS_FRAMES_COUNT_def)
  have b: "\<forall>f \<in> set ?frames. extract_landmarks ?fm f = Some (replicate 478 [1 / 2, 1 / 2, 0])"
    by (simp add: extract_landmarks_def)
  have c: "387 < length (replicate 478 [1 / 2 :: real, 1 / 2, 0])" by simp
  from check_liveness_static[OF a b] c show ?thesis by blast
qed

section \<open>Claims about the attendance log and the processing cycle\<close>

lemma log_attendance_logs:
  "attendance_logs (snd (log_attendance insert_raises now db sid st sc pt)) =
     attendance_logs db @
       (if insert_raises \<or> \<not> List.member [''SUCCESS'', ''FAILURE''] st then []
        else [\<lparr>log_student_id = sid, log_timestamp = now, log_status = st,
               log_similarity_score = sc, log_processing_time_ms = pt\<rparr>])"
  by (simp add: log_attendance_def)

lemma log_attendance_students:
  "students (snd (log_attendance insert_raises now db sid st sc pt)) = students db"
  by (simp add: log_attendance_def)

lemma process_attendance_one_call:
  assumes "process_attendance env frame db = Inr (result, db')"
  shows "\<exists>sid st sc pt.
           db' = snd (log_attendance (env_insert_raises env) (env_now env) db sid st sc pt)
         \<and> List.member [''SUCCESS'', ''FAILURE''] st"
  using assms
  by (auto simp: process_attendance_def Let_def
      split: sum.splits option.splits prod.splits if_splits)

lemma process_attendance_log_length:
  assumes "process_attendance env frame db = Inr (result, db')"
  shows "length (attendance_logs db') =
           length (attendance_logs db) + (if env_insert_raises env then 0 else 1)"
proof -
  from process_attendance_one_call[OF assms] obtain sid st sc pt where
    d: "db' = snd (log_attendance (env_insert_raises env) (env_now env) db sid st sc pt)"
    and m: "List.member [''SUCCESS'', ''FAILURE''] st" by blast
  show ?thesis using m by (simp only: d log_attendance_logs) simp
qed

text \<open>
  C4, as the code has it. Every completed call of \<open>process_attendance\<close> makes
  exactly one call of \<open>log_attendance\<close>, whatever the outcome (no face, embedding
  failure, no match, match). That call appends one row when its INSERT succeeds and
  none when it raises, so after a sequence of completed cycles the log has grown by the
  number of cycles whose INSERT succeeded: by exactly the number of cycles when every
  INSERT succeeded.
\<close>

theorem process_cycles_log_rows:
  assumes "process_cycles cycles db = Inr db'"
  shows "length (attendance_logs db') =
           length (attendance_logs db) + length (filter (\<lambda>c. \<not> env_insert_raises (fst c)) cycles)
       \<and> (list_all (\<lambda>c. \<not> env_insert_raises (fst c)) cycles \<longrightarrow>
            length (attendance_logs db') = length (attendance_logs db) + length cycles)
       \<and> (\<forall>env frame d result d1.
            process_attendance env frame d = Inr (result, d1) \<longrightarrow>
              (\<exists>sid st sc pt.
                 d1 = snd (log_attendance (env_insert_raises env) (env_now env) d sid st sc pt)
               \<and> List.member [''SUCCESS'', ''FAILURE''] st
               \<and> students d1 = students d
               \<and> attendance_logs d1 = attendance_logs d @
                    (if env_insert_raises env then []
                     else [\<lparr>log_student_id = sid, log_timestamp = env_now env, log_status = st,
                            log_similarity_score = sc, log_processing_time_ms = pt\<rparr>])))"
proof -
  have main: "length (attendance_logs db') =
           length (attendance_logs db) + length (filter (\<lambda>c. \<not> env_insert_raises (fst c)) cycles)"
    using assms
  proof (induction cycles arbitrary: db)
    case Nil
    then show ?case by simp
  next
    case (Cons c cycles)
    obtain env frame where c: "c = (env, frame)" by (cases c)
    from Cons.prems obtain result db1 where
      p: "process_attendance env frame db = Inr (result, db1)"
      and r: "process_cycles cycles db1 = Inr db'"
      by (auto simp: c split: sum.splits)
    from Cons.IH[OF r] process_attendance_log_length[OF p]
    show ?case by (simp add: c)
  qed
  have "length (filter (\<lambda>c. \<not> env_insert_raises (fst c)) cycles) = length cycles"
    if "list_all (\<lambda>c. \<not> env_insert_raises (fst c)) cycles"
    using that by (simp add: list_all_iff)
  with main have every: "list_all (\<lambda>c. \<not> env_insert_raises (fst c)) cycles \<longrightarrow>
      length (attendance_logs db') = length (attendance_logs db) + length cycles"
    by simp
  have once: "\<forall>env frame d result d1.
      process_attendance env frame d = Inr (result, d1) \<longrightarrow>
        (\<exists>sid st sc pt.
           d1 = snd (log_attendance (env_insert_raises env) (env_now env) d sid st sc pt)
         \<and> List.member [''SUCCESS'', ''FAILURE''] st
         \<and> students d1 = students d
         \<and> attendance_logs d1 = attendance_logs d @
              (if env_insert_raises env then []
               else [\<lparr>log_student_id = sid, log_timestamp = env_now env, log_status = st,
                      log_similarity_score = sc, log_processing_time_ms = pt\<rparr>]))"
  proof (intro allI impI)
    fix env frame d result d1
    assume "process_attendance env frame d = Inr (result, d1)"
    from process_attendance_one_call[OF this] obtain sid st sc pt where
      d1: "d1 = snd (log_attendance (env_insert_raises env) (env_now env) d sid st sc pt)"
      and m: "List.member [''SUCCESS'', ''FAILURE''] st" by blast
    have s: "students d1 = students d" by (simp only: d1 log_attendance_students)
    have l: "attendance_logs d1 = attendance_logs d @
        (if env_insert_raises env then []
         else [\<lparr>log_student_id = sid, log_timestamp = env_now env, log_status = st,
                log_similarity_score = sc, log_processing_time_ms = pt\<rparr>])"
      using m by (simp only: d1 log_attendance_logs) simp
    from d1 m s l
    show "\<exists>sid st sc pt.
        d1 = snd (log_attendance (env_insert_raises env) (env_now env) d sid st sc pt)
      \<and> List.member [''SUCCESS'', ''FAILURE''] st
      \<and> students d1 = students d
      \<and> attendance_logs d1 = attendance_logs d @
           (if env_insert_raises env then []
            else [\<lparr>log_student_id = sid, log_timestamp = env_now env, log_status = st,
                   log_similarity_score = sc, log_processing_time_ms = pt\<rparr>])"
      by blast
  qed
  from main every once show ?thesis by (intro conjI)
qed

text \<open>
  C4 as stated fails when the INSERT raises: \<open>log_attendance\<close> swallows the error,
  the cycle completes, and the log has no new row.
\<close>

theorem process_attendance_insert_fails_counterexample:
  "process_attendance
     \<lparr>env_face_detection = (\<lambda>img. None), env_session = None, env_threshold = 4 / 5,
      env_start_time = 0, env_end_time = 1, env_match_start = 0, env_match_end = 0,
      env_now = 0, env_select_raises = False, env_insert_raises = True\<rparr>
     [[(0, 0, 0)]] \<lparr>students = [], attendance_logs = []\<rparr>
   = Inr ((None, Some ''No face detected''), \<lparr>students = [], attendance_logs = []\<rparr>)"
  by (simp add: process_attendance_def detect_single_face_def log_attendance_def Let_def)


theorem process_cycles_log_rows_witness:
  "\<exists>db'. process_cycles
      [(\<lparr>env_face_detection = (\<lambda>img. None), env_session = None, env_threshold = 4 / 5,
         env_start_time = 0, env_end_time = 1, env_match_start = 0, env_match_end = 0,
         env_now = 0, env_select_raises = False, env_insert_raises = False\<rparr>, [[(0, 0, 0)]]),
       (\<lparr>env_face_detection =
           (\<lambda>img. Some [\<lparr>location_data = \<lparr>xmin = 0, ymin = 0, width = 1, height = 1\<rparr>,
                           det_score = [9 / 10]\<rparr>]),
         env_session = Some (\<lambda>img. Some [1]), env_threshold = 4 / 5,
         env_start_time = 0, env_end_time = 1, env_match_start = 0, env_match_end = 0,
         env_now = 5, env_select_raises = False, env_insert_raises = False\<rparr>, [[(0, 0, 0)]])]
      \<lparr>students = [(''S1'', ''Ann'', 1 # replicate 511 0)], attendance_logs = []\<rparr> = Inr db'
    \<and> length (attendance_logs db') = 2
    \<and> map log_status (attendance_logs db') = [''FAILURE'', ''SUCCESS'']"
proof -
  let ?e1 = "\<lparr>env_face_detection = (\<lambda>img. None), env_session = None, env_threshold = 4 / 5,
         env_start_time = 0, env_end_time = 1, env_match_start = 0, env_match_end = 0,
         env_now = 0, env_select_raises = False, env_insert_raises = False\<rparr>"
  let ?e2 = "\<lparr>env_face_detection =
           (\<lambda>img. Some [\<lparr>location_data = \<lparr>xmin = 0, ymin = 0, width = 1, height = 1\<rparr>,
                           det_score = [9 / 10]\<rparr>]),
         env_session = Some (\<lambda>img. Some [1]), env_threshold = 4 / 5,
         env_start_time = 0, env_end_time = 1, env_match_start = 0, env_match_end = 0,
         env_now = 5, env_select_raises = False, env_insert_raises = False\<rparr>"
  let ?db = "\<lparr>students = [(''S1'', ''Ann'', 1 # replicate 511 0)], attendance_logs = []\<rparr>"
  let ?f = "[[(0, 0, 0)]] :: image"
  let ?db1 = "\<lparr>students = [(''S1'', ''Ann'', 1 # replicate 511 0)],
               attendance_logs = [\<lparr>log_student_id = None, log_timestamp = 0,
                 log_status = ''FAILURE'', log_similarity_score = Some 0,
                 log_processing_time_ms = 1000\<rparr>]\<rparr>"
  have s1: "process_attendance ?e1 ?f ?db = Inr ((None, Some ''No face detected''), ?db1)"
    by (simp add: process_attendance_def detect_single_face_def log_attendance_def Let_def)
  have crop: "detect_single_face
      (\<lambda>img. Some [\<lparr>location_data = \<lparr>xmin = 0, ymin = 0, width = 1, height = 1\<rparr>,
                      det_score = [9 / 10]\<rparr>]) ?f
      = Inr (Some (?f, ((0, 0, 1, 1), 9 / 10)))"
    by (simp add: detect_single_face_def Let_def py_int_def py_slice_def slice_bound_def
        FACE_CROP_PADDING_def image_width_def)
  have pad: "pad_or_truncate [1] = 1 # replicate 511 0"
    by (simp add: pad_or_truncate_def EMBEDDING_DIM_def)
  have nrm: "linalg_norm (1 # replicate 511 0) = 1"
    by (simp add: linalg_norm_def sum_list_replicate)
  have emb: "generate_embedding (Some (\<lambda>img. Some [1])) (Some ?f) = Some (1 # replicate 511 0)"
    by (simp add: generate_embedding_def image_size_def image_width_def pad
        normalize_embedding_def nrm)
  have cs: "cosine_similarity (1 # replicate 511 0) (1 # replicate 511 0) = 1"
    using cosine_similarity_self[of "1 # replicate 511 0"] nrm by simp
  have mt: "match_1_to_n (4 / 5) (1 # replicate 511 0)
      [(''S1'', ''Ann'', 1 # replicate 511 0)] 0 0 = Inr (Some ''S1'', Some ''Ann'', 1, 0)"
    by (simp add: match_1_to_n_def cs argmax_def Let_def)
  have s2: "\<exists>r. process_attendance ?e2 ?f ?db1 = Inr (r,
      ?db1\<lparr>attendance_logs := attendance_logs ?db1 @
        [\<lparr>log_student_id = Some ''S1'', log_timestamp = 5, log_status = ''SUCCESS'',
          log_similarity_score = Some 1, log_processing_time_ms = 1000\<rparr>]\<rparr>)"
    by (simp add: process_attendance_def crop emb mt get_all_embeddings_def
        log_attendance_def Let_def)
  then obtain r where s2': "process_attendance ?e2 ?f ?db1 = Inr (r,
      ?db1\<lparr>attendance_logs := attendance_logs ?db1 @
        [\<lparr>log_student_id = Some ''S1'', log_timestamp = 5, log_status = ''SUCCESS'',
          log_similarity_score = Some 1, log_processing_time_ms = 1000\<rparr>]\<rparr>)" by blast
  have ev: "process_cycles [(?e1, ?f), (?e2, ?f)] ?db =
      Inr (?db1\<lparr>attendance_logs := attendance_logs ?db1 @
        [\<lparr>log_student_id = Some ''S1'', log_timestamp = 5, log_status = ''SUCCESS'',
          log_similarity_score = Some 1, log_processing_time_ms = 1000\<rparr>]\<rparr>)"
    by (simp only: process_cycles.simps s1 s2' sum.case prod.case)
  from process_cycles_log_rows[OF ev] ev show ?thesis by simp
qed


lemma check_attendance_today_append:
  assumes "check_attendance_today select_raises utc_now db sid"
  shows "check_attendance_today select_raises utc_now
           (db\<lparr>attendance_logs := attendance_logs db @ rows\<rparr>) sid"
  using assms by (auto simp: check_attendance_today_def split: if_splits)

lemma check_attendance_today_after_success:
  assumes "sql_date local_now = sql_date utc_now"
  shows "check_attendance_today False utc_now
           (snd (log_attendance False local_now db (Some sid) ''SUCCESS'' sc pt)) sid"
  using assms by (simp add: check_attendance_today_def log_attendance_def)

text \<open>
  C5 fails on the code. The rows carry the local time of \<^verbatim>\<open>datetime.now()\<close> and the
  query compares their date with the UTC date of \<^verbatim>\<open>DATE('now')\<close>. In a zone five and
  a half hours ahead of UTC, a SUCCESS row written for \<open>S1\<close> at 02:00 local time on
  2 January 2024 (20:30 UTC on 1 January) is not found by
  \<open>check_attendance_today\<close> asked at that same moment.
\<close>

theorem check_attendance_today_utc_mismatch:
  "\<not> check_attendance_today False 1704141000
       (snd (log_attendance False (1704141000 + 19800) \<lparr>students = [], attendance_logs = []\<rparr>
               (Some ''S1'') ''SUCCESS'' (Some 1) 100)) ''S1''"
  by (simp add: check_attendance_today_def log_attendance_def sql_date_def)

end
